theory Spec2Isabelle
  imports Main
begin

section \<open>JavaScript values\<close>

text \<open>
  The server works on loosely typed JSON-like values (\<open>any\<close> in the source).  A value is a
  primitive, an object that the running call has built itself and that is referenced from the
  one place where it stands (\<open>JArr\<close>, \<open>JObj\<close>: written inline), or a reference \<open>JRef a\<close> to
  an object of the fetched document, which lives in a store.  Every object of the document is
  in the store, so that reference identity, sharing and cycles of the dereferenced document
  are visible; an object has its own properties as an association list in enumeration order
  (keys distinct).  Numbers are integers here; strings are lists of code units, non-ASCII
  literals of the source are given by their UTF-8 bytes.
\<close>

type_synonym addr = nat

datatype jv =
    JUndef
  | JNull
  | JBool bool
  | JNum int
  | JStr string
  | JArr "jv list"
  | JObj "(string \<times> jv) list"
  | JRef addr

datatype hobj = HArr "jv list" | HObj "(string \<times> jv) list"

type_synonym heap = "addr \<Rightarrow> hobj"

text \<open>
  Errors are values.  \<open>Error m\<close> is \<^verbatim>\<open>new Error(m)\<close>, thrown by this program or by a
  library; \<open>TypeError\<close> is what the engine throws when a property of \<open>null\<close> or
  \<open>undefined\<close> is read or a value that is no function is called; \<open>RangeError\<close> is the
  engine's stack overflow.
\<close>

datatype error = Error string | TypeError | RangeError

fun digit_char :: "nat \<Rightarrow> char" where
  "digit_char n = ''0123456789'' ! n"

function show_nat :: "nat \<Rightarrow> string" where
  "show_nat n = (if n < 10 then [digit_char n] else show_nat (n div 10) @ [digit_char (n mod 10)])"
  by pat_completeness auto
termination
  by (relation "measure (\<lambda>n. n)") auto

declare show_nat.simps [simp del]


section \<open>Coercions, property access, strings\<close>

fun truthy :: "jv \<Rightarrow> bool" where
  "truthy JUndef = False"
| "truthy JNull = False"
| "truthy (JBool b) = b"
| "truthy (JNum n) = (n \<noteq> 0)"
| "truthy (JStr s) = (s \<noteq> [])"
| "truthy _ = True"

text \<open>\<^verbatim>\<open>a || b\<close>\<close>

definition js_or :: "jv \<Rightarrow> jv \<Rightarrow> jv" where
  "js_or a b = (if truthy a then a else b)"

text \<open>\<^verbatim>\<open>typeof v === "object"\<close> (true of \<open>null\<close> and of arrays)\<close>

fun typeof_object :: "jv \<Rightarrow> bool" where
  "typeof_object JNull = True"
| "typeof_object (JArr _) = True"
| "typeof_object (JObj _) = True"
| "typeof_object (JRef _) = True"
| "typeof_object _ = False"

fun nullish :: "jv \<Rightarrow> bool" where
  "nullish JUndef = True"
| "nullish JNull = True"
| "nullish _ = False"

text \<open>The object a value denotes: a reference is looked up in the store.\<close>

definition resolve :: "heap \<Rightarrow> jv \<Rightarrow> jv" where
  "resolve h v =
     (case v of
        JRef a \<Rightarrow> (case h a of HArr xs \<Rightarrow> JArr xs | HObj kvs \<Rightarrow> JObj kvs)
      | _ \<Rightarrow> v)"

definition isArray :: "heap \<Rightarrow> jv \<Rightarrow> bool" where
  "isArray h v = (case resolve h v of JArr _ \<Rightarrow> True | _ \<Rightarrow> False)"

fun lookup :: "(string \<times> jv) list \<Rightarrow> string \<Rightarrow> jv" where
  "lookup [] k = JUndef"
| "lookup ((k', v) # kvs) k = (if k' = k then v else lookup kvs k)"

definition index_keys :: "nat \<Rightarrow> string list" where
  "index_keys n = map show_nat [0..<n]"

text \<open>
  \<^verbatim>\<open>Object.entries(v)\<close> of a value that is neither \<open>null\<close> nor \<open>undefined\<close>; the keys
  alone are \<^verbatim>\<open>Object.keys(v)\<close> and the order is that of \<^verbatim>\<open>for (key in v)\<close>.
\<close>

definition entries :: "heap \<Rightarrow> jv \<Rightarrow> (string \<times> jv) list" where
  "entries h v =
     (case resolve h v of
        JObj kvs \<Rightarrow> kvs
      | JArr xs \<Rightarrow> zip (index_keys (length xs)) xs
      | JStr s \<Rightarrow> zip (index_keys (length s)) (map (\<lambda>c. JStr [c]) s)
      | _ \<Rightarrow> [])"

text \<open>
  \<^verbatim>\<open>v[k]\<close>, \<^verbatim>\<open>v.k\<close> of a value that is neither \<open>null\<close> nor \<open>undefined\<close> (own properties
  only: none of the names the source reads is a property of a prototype, \<open>length\<close> apart).
\<close>

definition getp :: "heap \<Rightarrow> jv \<Rightarrow> string \<Rightarrow> jv" where
  "getp h v k =
     (case resolve h v of
        JObj kvs \<Rightarrow> lookup kvs k
      | JArr xs \<Rightarrow>
          if k = ''length'' then JNum (int (length xs))
          else lookup (zip (index_keys (length xs)) xs) k
      | JStr s \<Rightarrow>
          if k = ''length'' then JNum (int (length s))
          else lookup (zip (index_keys (length s)) (map (\<lambda>c. JStr [c]) s)) k
      | _ \<Rightarrow> JUndef)"

text \<open>\<^verbatim>\<open>obj[key] = v\<close> on an object the call has built itself\<close>

fun set_prop :: "jv \<Rightarrow> string \<Rightarrow> jv \<Rightarrow> jv" where
  "set_prop (JObj kvs) key v =
     (if key \<in> set (map fst kvs)
      then JObj (map (\<lambda>(k, x). if k = key then (k, v) else (k, x)) kvs)
      else JObj (kvs @ [(key, v)]))"
| "set_prop obj key v = obj"

text \<open>
  The own properties of \<open>result\<close> after \<^verbatim>\<open>result[key] = v\<close> for each of the pairs in turn,
  \<open>result\<close> being a new \<^verbatim>\<open>{}\<close> and the keys distinct.  The name \<open>__proto__\<close> is the
  accessor of \<^verbatim>\<open>Object.prototype\<close>: assigning to it sets the prototype of \<open>result\<close> (or
  does nothing, when \<open>v\<close> is no object) and creates no property.
\<close>

definition assigned :: "(string \<times> jv) list \<Rightarrow> (string \<times> jv) list" where
  "assigned kvs = filter (\<lambda>kv. fst kv \<noteq> ''__proto__'') kvs"

text \<open>\<^verbatim>\<open>s.includes(p)\<close>\<close>

fun str_includes :: "string \<Rightarrow> string \<Rightarrow> bool" where
  "str_includes [] p = (p = [])"
| "str_includes (c # cs) p = (take (length p) (c # cs) = p \<or> str_includes cs p)"

fun map_err :: "('a \<Rightarrow> error + 'b) \<Rightarrow> 'a list \<Rightarrow> error + 'b list" where
  "map_err f [] = Inr []"
| "map_err f (x # xs) =
     (case f x of
        Inl e \<Rightarrow> Inl e
      | Inr y \<Rightarrow> (case map_err f xs of Inl e \<Rightarrow> Inl e | Inr ys \<Rightarrow> Inr (y # ys)))"

definition HTTP_METHOD_ORDER :: "string list" where
  "HTTP_METHOD_ORDER =
     [''get'', ''post'', ''put'', ''delete'', ''patch'', ''options'', ''head'', ''trace'']"

definition HTTP_METHODS :: "string set" where
  "HTTP_METHODS = set HTTP_METHOD_ORDER"


section \<open>Arguments, responses and the outside world\<close>

text \<open>
  The arguments of \<open>read_swagger_api\<close> as they arrive (every optional field may be missing;
  a value of the wrong type is refused by the schema and is outside this type) and as
  \<^verbatim>\<open>ReadSwaggerApiArgsSchema.safeParse\<close> returns them, defaults filled in.
\<close>

record raw_args =
  raw_url :: string
  raw_use_fallback :: "bool option"
  raw_path_pattern :: "string option"
  raw_tag :: "string option"
  raw_generate_ts :: "bool option"
  raw_generate_mock :: "bool option"
  raw_max_depth :: "int option"
  raw_limit_paths :: "int option"
  raw_limit_ops :: "int option"

record args =
  arg_url :: string
  arg_use_fallback :: bool
  arg_path_pattern :: "string option"
  arg_tag :: "string option"
  arg_generate_ts :: bool
  arg_generate_mock :: bool
  arg_max_depth :: int
  arg_limit_paths :: int
  arg_limit_ops :: int

text \<open>
  What \<^verbatim>\<open>fetch\<close> resolves to: status, the value of \<^verbatim>\<open>headers.get("content-type")\<close>
  (\<open>None\<close> for \<open>null\<close>), and the outcomes of reading the body as text and as JSON.
\<close>

record response =
  resp_ok :: bool
  resp_status :: nat
  resp_statusText :: string
  resp_content_type :: "string option"
  resp_text :: "error + string"
  resp_json :: "error + jv"

text \<open>
  Everything an invocation takes from outside: the store holding the documents, the outcome
  of each library and network call (for \<open>dereference\<close>: of the call raced against the
  10 s timer), and the engine's own conversions and limits.  \<open>toLowerCase\<close> is the engine's
  \<^verbatim>\<open>String.prototype.toLowerCase\<close>, which lowers every cased letter of Unicode.
\<close>

record world =
  store :: heap
  valid_url :: "string \<Rightarrow> bool"
  zod_issues :: "raw_args \<Rightarrow> string"
  url_protocol :: "string \<Rightarrow> string"
  dereference :: "string \<Rightarrow> error + jv"
  fetch :: "string \<Rightarrow> error + response"
  stringify :: "jv \<Rightarrow> string"
  compile :: "jv \<Rightarrow> error + string"
  js_String :: "jv \<Rightarrow> string"
  js_positive :: "jv \<Rightarrow> bool"
  toLowerCase :: "string \<Rightarrow> string"
  stack_limit :: nat
  type_error_message :: string
  range_error_message :: string

text \<open>\<^verbatim>\<open>error.message\<close>\<close>

definition message :: "world \<Rightarrow> error \<Rightarrow> string" where
  "message w e =
     (case e of
        Error m \<Rightarrow> m
      | TypeError \<Rightarrow> type_error_message w
      | RangeError \<Rightarrow> range_error_message w)"

text \<open>A value inside a template literal\<close>

definition to_string :: "world \<Rightarrow> jv \<Rightarrow> string" where
  "to_string w v = (case v of JStr s \<Rightarrow> s | _ \<Rightarrow> js_String w v)"

text \<open>\<^verbatim>\<open>v > 0\<close>\<close>

definition js_gt0 :: "world \<Rightarrow> jv \<Rightarrow> bool" where
  "js_gt0 w v =
     (case v of
        JNum n \<Rightarrow> n > 0
      | JBool b \<Rightarrow> b
      | JUndef \<Rightarrow> False
      | JNull \<Rightarrow> False
      | _ \<Rightarrow> js_positive w v)"

text \<open>The stages of the pipeline an invocation enters, in order.\<close>

datatype event = Resolve string | RawRead string | Normalize | Mock | Sanitize | Types

fun is_raw_read :: "event \<Rightarrow> bool" where
  "is_raw_read (RawRead url) = True"
| "is_raw_read _ = False"


definition newline :: string where
  "newline = [CHR 0x0A]"

section \<open>Parameter schemas and operations\<close>

definition extractParameterSchema :: "heap \<Rightarrow> jv \<Rightarrow> jv" where
  "extractParameterSchema h param =
     (if \<not> truthy param \<or> \<not> typeof_object param then JUndef
      else if truthy (getp h param ''schema'') then getp h param ''schema''
      else if truthy (getp h param ''type'') then
        JObj ([(''type'', getp h param ''type'')]
          @ (if truthy (getp h param ''format'') then [(''format'', getp h param ''format'')] else [])
          @ (if truthy (getp h param ''items'') then [(''items'', getp h param ''items'')] else [])
          @ (if truthy (getp h param ''enum'') then [(''enum'', getp h param ''enum'')] else [])
          @ (if getp h param ''default'' \<noteq> JUndef
             then [(''default'', getp h param ''default'')] else []))
      else JUndef)"

definition getOperations :: "heap \<Rightarrow> jv \<Rightarrow> jv list" where
  "getOperations h pathItem =
     (if \<not> truthy pathItem \<or> \<not> typeof_object pathItem then []
      else map snd
        (filter (\<lambda>(method, op). method \<in> HTTP_METHODS \<and> truthy op \<and> typeof_object op)
           (entries h pathItem)))"

section \<open>Sanitizer\<close>

text \<open>
  \<^verbatim>\<open>function sanitizeRecursive(obj, depth = 0, maxDepth = 3, seen = new WeakSet())\<close>.
  The set \<open>seen\<close> is mutated by the source and shared by all recursive calls, so the model
  passes it in and returns it.  An inline object is referenced from one place only: when the
  traversal reaches it, it is not in \<open>seen\<close>, and adding it changes no later membership test,
  so only the addresses of stored objects are kept in \<open>seen\<close>.  Every value below the root is
  handed to a nested call, and a call that the engine's stack does not admit throws; the
  first argument is the number of nested calls the stack still admits.
\<close>

definition truncated :: "nat \<Rightarrow> string" where
  "truncated maxDepth = ''[Truncated: >'' @ show_nat maxDepth @ '' levels]''"

definition circular :: string where
  "circular = ''[Circular Ref]''"

fun sanitizeRecursive :: "nat \<Rightarrow> heap \<Rightarrow> jv \<Rightarrow> nat \<Rightarrow> nat \<Rightarrow> addr set
    \<Rightarrow> error + jv \<times> addr set"
  and sanitize_each :: "nat \<Rightarrow> heap \<Rightarrow> jv list \<Rightarrow> nat \<Rightarrow> nat \<Rightarrow> addr set
    \<Rightarrow> error + jv list \<times> addr set"
where
  "sanitizeRecursive 0 h obj depth maxDepth seen = Inl RangeError"
| "sanitizeRecursive (Suc n) h obj depth maxDepth seen =
     (if depth > maxDepth then Inr (JStr (truncated maxDepth), seen)
      else (case obj of
          JRef a \<Rightarrow>
            if a \<in> seen then Inr (JStr circular, seen)
            else (case h a of
                HArr items \<Rightarrow>
                  (case sanitize_each n h items (depth + 1) maxDepth (insert a seen) of
                     Inl e \<Rightarrow> Inl e
                   | Inr (r, seen') \<Rightarrow> Inr (JArr r, seen'))
              | HObj kvs \<Rightarrow>
                  (case sanitize_each n h (map snd kvs) (depth + 1) maxDepth (insert a seen) of
                     Inl e \<Rightarrow> Inl e
                   | Inr (r, seen') \<Rightarrow> Inr (JObj (assigned (zip (map fst kvs) r)), seen')))
        | JArr items \<Rightarrow>
            (case sanitize_each n h items (depth + 1) maxDepth seen of
               Inl e \<Rightarrow> Inl e
             | Inr (r, seen') \<Rightarrow> Inr (JArr r, seen'))
        | JObj kvs \<Rightarrow>
            (case sanitize_each n h (map snd kvs) (depth + 1) maxDepth seen of
               Inl e \<Rightarrow> Inl e
             | Inr (r, seen') \<Rightarrow> Inr (JObj (assigned (zip (map fst kvs) r)), seen'))
        | _ \<Rightarrow> Inr (obj, seen)))"
| "sanitize_each n h [] depth maxDepth seen = Inr ([], seen)"
| "sanitize_each n h (x # xs) depth maxDepth seen =
     (case sanitizeRecursive n h x depth maxDepth seen of
        Inl e \<Rightarrow> Inl e
      | Inr (y, seen1) \<Rightarrow>
          (case sanitize_each n h xs depth maxDepth seen1 of
             Inl e \<Rightarrow> Inl e
           | Inr (ys, seen2) \<Rightarrow> Inr (y # ys, seen2)))"

declare sanitizeRecursive.simps [simp del]

text \<open>A top-level call: depth 0 and a new, empty \<open>seen\<close> set (the default arguments).\<close>

definition sanitize :: "nat \<Rightarrow> heap \<Rightarrow> jv \<Rightarrow> nat \<Rightarrow> error + jv" where
  "sanitize n h v maxDepth =
     (case sanitizeRecursive n h v 0 maxDepth {} of
        Inl e \<Rightarrow> Inl e
      | Inr (out, seen) \<Rightarrow> Inr out)"

text \<open>The values found \<open>n\<close> levels below the root of a tree.\<close>

fun nodes_at :: "nat \<Rightarrow> jv \<Rightarrow> jv list" where
  "nodes_at 0 t = [t]"
| "nodes_at (Suc n) (JArr xs) = concat (map (nodes_at n) xs)"
| "nodes_at (Suc n) (JObj kvs) = concat (map (\<lambda>kv. nodes_at n (snd kv)) kvs)"
| "nodes_at (Suc n) _ = []"

fun is_primitive :: "jv \<Rightarrow> bool" where
  "is_primitive (JArr _) = False"
| "is_primitive (JObj _) = False"
| "is_primitive (JRef _) = False"
| "is_primitive _ = True"

section \<open>Mock data\<close>

text \<open>
  \<^verbatim>\<open>function generateMockData(schema)\<close>.  The schema may lie on a cycle of the store, where
  the source recurses until the engine's stack is exhausted and throws; the first argument
  is the number of calls the stack still admits.  The mock of an object is filled by
  \<^verbatim>\<open>result[key] = ...\<close> (see \<open>assigned\<close>).
\<close>

fun generateMockData :: "nat \<Rightarrow> world \<Rightarrow> jv \<Rightarrow> error + jv" where
  "generateMockData 0 w schema = Inl RangeError"
| "generateMockData (Suc n) w schema =
     (if \<not> truthy schema then Inr JNull
      else if truthy (getp (store w) schema ''example'') then Inr (getp (store w) schema ''example'')
      else if getp (store w) schema ''type'' = JStr ''object'' then
        (if truthy (getp (store w) schema ''properties'') then
           (case map_err
                   (\<lambda>(key, sub). case generateMockData n w sub of
                                    Inl e \<Rightarrow> Inl e
                                  | Inr m \<Rightarrow> Inr (key, m))
                   (entries (store w) (getp (store w) schema ''properties'')) of
              Inl e \<Rightarrow> Inl e
            | Inr result \<Rightarrow> Inr (JObj (assigned result)))
         else Inr (JObj []))
      else if getp (store w) schema ''type'' = JStr ''array'' then
        (case generateMockData n w (getp (store w) schema ''items'') of
           Inl e \<Rightarrow> Inl e
         | Inr m \<Rightarrow> Inr (JArr [m]))
      else if getp (store w) schema ''type'' = JStr ''string'' then
        (if getp (store w) schema ''format'' = JStr ''date-time''
         then Inr (JStr ''2024-01-01T00:00:00Z'')
         else if truthy (getp (store w) schema ''enum'')
               \<and> js_gt0 w (getp (store w) (getp (store w) schema ''enum'') ''length'')
         then Inr (getp (store w) (getp (store w) schema ''enum'') ''0'')
         else Inr (JStr ''string_value''))
      else if getp (store w) schema ''type'' = JStr ''integer''
            \<or> getp (store w) schema ''type'' = JStr ''number'' then Inr (JNum 0)
      else if getp (store w) schema ''type'' = JStr ''boolean'' then Inr (JBool True)
      else Inr JNull)"

section \<open>Fetching the document\<close>

text \<open>
  \<open>content_type_error ct text\<close> is the error with the message
  \<^verbatim>\<open>... JSON (Content-Type: ${contentType})...: ${text.substring(0, 100)}...\<close>.
\<close>

definition content_type_error :: "string \<Rightarrow> string \<Rightarrow> error" where
  "content_type_error contentType text =
     Error ([CHR 0xE8, CHR 0xBF, CHR 0x94, CHR 0xE5, CHR 0x9B, CHR 0x9E, CHR 0xE5, CHR 0x86,
             CHR 0x85, CHR 0xE5, CHR 0xAE, CHR 0xB9, CHR 0xE4, CHR 0xB8, CHR 0x8D, CHR 0xE6,
             CHR 0x98, CHR 0xAF]
            @ '' JSON (Content-Type: '' @ contentType @ '')''
            @ [CHR 0xE3, CHR 0x80, CHR 0x82, CHR 0xE5, CHR 0x86, CHR 0x85, CHR 0xE5, CHR 0xAE,
               CHR 0xB9, CHR 0xE9, CHR 0xA2, CHR 0x84, CHR 0xE8, CHR 0xA7, CHR 0x88]
            @ '': '' @ take 100 text @ ''...'')"

definition http_status_error :: "nat \<Rightarrow> string \<Rightarrow> error" where
  "http_status_error status statusText =
     Error (''HTTP '' @ show_nat status @ '': '' @ statusText)"

definition fetchRawSwagger :: "world \<Rightarrow> string \<Rightarrow> error + jv" where
  "fetchRawSwagger w url =
     (case fetch w url of
        Inl e \<Rightarrow> Inl e
      | Inr response \<Rightarrow>
          if \<not> resp_ok response
          then Inl (http_status_error (resp_status response) (resp_statusText response))
          else (case resp_content_type response of
              Some contentType \<Rightarrow>
                if contentType \<noteq> [] \<and> \<not> str_includes (toLowerCase w contentType) ''json''
                then (case resp_text response of
                        Inl e \<Rightarrow> Inl e
                      | Inr text \<Rightarrow> Inl (content_type_error contentType text))
                else resp_json response
            | None \<Rightarrow> resp_json response))"

text \<open>
  \<open>both_failed\<close> is the message
  \<^verbatim>\<open>SwaggerParser ...\nSwaggerParser: ${parseError.message}\n...: ${fallbackError.message}\<close>.
\<close>

definition both_failed_head :: string where
  "both_failed_head =
     ''SwaggerParser ''
     @ [CHR 0xE5, CHR 0x92, CHR 0x8C, CHR 0xE9, CHR 0x99, CHR 0x8D, CHR 0xE7, CHR 0xBA, CHR 0xA7,
        CHR 0xE7, CHR 0xAD, CHR 0x96, CHR 0xE7, CHR 0x95, CHR 0xA5, CHR 0xE5, CHR 0x9D, CHR 0x87,
        CHR 0xE5, CHR 0xA4, CHR 0xB1, CHR 0xE8, CHR 0xB4, CHR 0xA5, CHR 0xE3, CHR 0x80, CHR 0x82,
        CHR 0x0A]
     @ ''SwaggerParser: ''"

definition both_failed_mid :: string where
  "both_failed_mid =
     [CHR 0x0A, CHR 0xE9, CHR 0x99, CHR 0x8D, CHR 0xE7, CHR 0xBA, CHR 0xA7, CHR 0xE7, CHR 0xAD,
      CHR 0x96, CHR 0xE7, CHR 0x95, CHR 0xA5]
     @ '': ''"

definition both_failed :: "string \<Rightarrow> string \<Rightarrow> string" where
  "both_failed parseMessage fallbackMessage =
     both_failed_head @ parseMessage @ both_failed_mid @ fallbackMessage"

definition getSwaggerApi :: "world \<Rightarrow> string \<Rightarrow> bool \<Rightarrow> (error + jv) \<times> event list" where
  "getSwaggerApi w url use_fallback =
     (case dereference w url of
        Inr api \<Rightarrow> (Inr api, [Resolve url])
      | Inl parseError \<Rightarrow>
          if use_fallback then
            (case fetchRawSwagger w url of
               Inr api \<Rightarrow> (Inr api, [Resolve url, RawRead url])
             | Inl fallbackError \<Rightarrow>
                 (Inl (Error (both_failed (message w parseError) (message w fallbackError))),
                  [Resolve url, RawRead url]))
          else (Inl parseError, [Resolve url]))"

section \<open>Normalizer\<close>

text \<open>The callback of \<^verbatim>\<open>op.parameters?.map(...)\<close>; reading \<open>p.name\<close> of \<open>null\<close> throws.\<close>

definition simplifyParameter :: "heap \<Rightarrow> jv \<Rightarrow> error + jv" where
  "simplifyParameter h p =
     (if nullish p then Inl TypeError
      else Inr (JObj [(''name'', getp h p ''name''),
                      (''in'', getp h p ''in''),
                      (''required'', getp h p ''required''),
                      (''description'', getp h p ''description''),
                      (''schema'', extractParameterSchema h p)]))"

text \<open>
  \<^verbatim>\<open>op.parameters?.map(...) || []\<close>: \<open>map\<close> is a function on arrays only, and calling it
  on another value that is not \<open>null\<close> or \<open>undefined\<close> throws.
\<close>

definition simplifyParameters :: "heap \<Rightarrow> jv \<Rightarrow> error + jv" where
  "simplifyParameters h parameters =
     (if nullish parameters then Inr (JArr [])
      else (case resolve h parameters of
          JArr ps \<Rightarrow>
            (case map_err (simplifyParameter h) ps of
               Inl e \<Rightarrow> Inl e
             | Inr r \<Rightarrow> Inr (JArr r))
        | _ \<Rightarrow> Inl TypeError))"

text \<open>The \<open>requestBody\<close> of the simplified operation.\<close>

definition simplifyRequestBody :: "heap \<Rightarrow> jv \<Rightarrow> jv" where
  "simplifyRequestBody h op =
     (if truthy (getp h op ''requestBody'') \<and> typeof_object (getp h op ''requestBody'') then
        JObj [(''required'', getp h (getp h op ''requestBody'') ''required''),
              (''description'', getp h (getp h op ''requestBody'') ''description''),
              (''content'', getp h (getp h op ''requestBody'') ''content'')]
      else
        (case (case resolve h (getp h op ''parameters'') of
                 JArr ps \<Rightarrow>
                   find (\<lambda>p. truthy p \<and> typeof_object p \<and> getp h p ''in'' = JStr ''body'') ps
               | _ \<Rightarrow> None) of
           Some bodyParam \<Rightarrow>
             JObj [(''required'', getp h bodyParam ''required''),
                   (''description'', getp h bodyParam ''description''),
                   (''schema'', extractParameterSchema h bodyParam)]
         | None \<Rightarrow> JUndef))"

text \<open>
  The body of the \<open>reduce\<close> over \<open>op.responses\<close>, where reading \<open>r.description\<close> of
  \<open>null\<close> throws, and the \<open>reduce\<close>, which fills its accumulator by
  \<^verbatim>\<open>acc[code] = ...\<close> (see \<open>assigned\<close>).
\<close>

definition simplifyResponse :: "heap \<Rightarrow> jv \<Rightarrow> error + jv" where
  "simplifyResponse h r =
     (if nullish r then Inl TypeError
      else Inr (JObj [(''description'', js_or (getp h r ''description'') (JStr [])),
                      (''content'', getp h r ''content''),
                      (''schema'', getp h r ''schema'')]))"

definition simplifyResponses :: "heap \<Rightarrow> jv \<Rightarrow> error + jv" where
  "simplifyResponses h responses =
     (case map_err
             (\<lambda>(code, resp). case simplifyResponse h resp of
                                Inl e \<Rightarrow> Inl e
                              | Inr d \<Rightarrow> Inr (code, d))
             (entries h (js_or responses (JObj []))) of
        Inl e \<Rightarrow> Inl e
      | Inr acc \<Rightarrow> Inr (JObj (assigned acc)))"

definition simplifyOperation :: "heap \<Rightarrow> jv \<Rightarrow> error + jv" where
  "simplifyOperation h op =
     (case simplifyParameters h (getp h op ''parameters'') of
        Inl e \<Rightarrow> Inl e
      | Inr parameters \<Rightarrow>
          (case simplifyResponses h (getp h op ''responses'') of
             Inl e \<Rightarrow> Inl e
           | Inr responses \<Rightarrow>
               Inr (JObj [(''summary'', js_or (getp h op ''summary'') (JStr [])),
                          (''description'', js_or (getp h op ''description'') (JStr [])),
                          (''operationId'', js_or (getp h op ''operationId'') (JStr [])),
                          (''tags'', js_or (getp h op ''tags'') (JArr [])),
                          (''parameters'', parameters),
                          (''requestBody'', simplifyRequestBody h op),
                          (''responses'', responses)])))"

definition simplifyPathItem :: "heap \<Rightarrow> jv \<Rightarrow> error + jv" where
  "simplifyPathItem h pathValue =
     (case map_err
             (\<lambda>(method, operation). case simplifyOperation h operation of
                                       Inl e \<Rightarrow> Inl e
                                     | Inr op \<Rightarrow> Inr (method, op))
             (filter (\<lambda>(method, operation).
                        method \<in> HTTP_METHODS \<and> typeof_object operation \<and> operation \<noteq> JNull)
                (entries h pathValue)) of
        Inl e \<Rightarrow> Inl e
      | Inr ops \<Rightarrow> Inr (JObj ops))"

text \<open>
  The outer loop fills its result by \<^verbatim>\<open>simplified[pathKey] = {}\<close> and
  \<^verbatim>\<open>simplified[pathKey][method] = ...\<close> (see \<open>assigned\<close>).
\<close>

definition simplifyPaths :: "heap \<Rightarrow> jv \<Rightarrow> error + jv" where
  "simplifyPaths h paths =
     (case map_err
             (\<lambda>(pathKey, pathValue). case simplifyPathItem h pathValue of
                                        Inl e \<Rightarrow> Inl e
                                      | Inr item \<Rightarrow> Inr (pathKey, item))
             (filter (\<lambda>(pathKey, pathValue). truthy pathValue) (entries h paths)) of
        Inl e \<Rightarrow> Inl e
      | Inr simplified \<Rightarrow> Inr (JObj (assigned simplified)))"

section \<open>The \<open>read_swagger_api\<close> tool\<close>

subsection \<open>Arguments\<close>

text \<open>\<open>validation_failed\<close> is the prefix of \<^verbatim>\<open>...: ${formatZodError(parsed.error)}\<close>.\<close>

definition validation_failed :: string where
  "validation_failed =
     [CHR 0xE5, CHR 0x8F, CHR 0x82, CHR 0xE6, CHR 0x95, CHR 0xB0, CHR 0xE6, CHR 0xA0, CHR 0xA1,
      CHR 0xE9, CHR 0xAA, CHR 0x8C, CHR 0xE5, CHR 0xA4, CHR 0xB1, CHR 0xE8, CHR 0xB4, CHR 0xA5]
     @ '': ''"

definition parse_args :: "world \<Rightarrow> raw_args \<Rightarrow> error + args" where
  "parse_args w raw =
     (let max_depth = (case raw_max_depth raw of None \<Rightarrow> 20 | Some k \<Rightarrow> k);
          limit_paths = (case raw_limit_paths raw of None \<Rightarrow> 50 | Some k \<Rightarrow> k);
          limit_ops = (case raw_limit_ops raw of None \<Rightarrow> 200 | Some k \<Rightarrow> k)
      in if valid_url w (raw_url raw)
            \<and> 1 \<le> max_depth \<and> max_depth \<le> 100
            \<and> 0 \<le> limit_paths \<and> limit_paths \<le> 10000
            \<and> 0 \<le> limit_ops \<and> limit_ops \<le> 10000
         then Inr \<lparr>arg_url = raw_url raw,
                   arg_use_fallback = (case raw_use_fallback raw of None \<Rightarrow> True | Some b \<Rightarrow> b),
                   arg_path_pattern = raw_path_pattern raw,
                   arg_tag = raw_tag raw,
                   arg_generate_ts = (case raw_generate_ts raw of None \<Rightarrow> True | Some b \<Rightarrow> b),
                   arg_generate_mock = (case raw_generate_mock raw of None \<Rightarrow> False | Some b \<Rightarrow> b),
                   arg_max_depth = max_depth,
                   arg_limit_paths = limit_paths,
                   arg_limit_ops = limit_ops\<rparr>
         else Inl (Error (validation_failed @ zod_issues w raw)))"

subsection \<open>The filter loop\<close>

text \<open>\<^verbatim>\<open>op.summary?.toLowerCase().includes(lowerPattern)\<close>, for the field \<open>key\<close>\<close>

definition field_includes :: "world \<Rightarrow> jv \<Rightarrow> string \<Rightarrow> string \<Rightarrow> error + bool" where
  "field_includes w op key lowerPattern =
     (case getp (store w) op key of
        JUndef \<Rightarrow> Inr False
      | JNull \<Rightarrow> Inr False
      | JStr s \<Rightarrow> Inr (str_includes (toLowerCase w s) lowerPattern)
      | _ \<Rightarrow> Inl TypeError)"

text \<open>The inner loop that sets \<open>inMeta\<close>, left at the first operation that matches.\<close>

fun inMeta :: "world \<Rightarrow> jv list \<Rightarrow> string \<Rightarrow> error + bool" where
  "inMeta w [] lowerPattern = Inr False"
| "inMeta w (op # ops) lowerPattern =
     (case field_includes w op ''summary'' lowerPattern of
        Inl e \<Rightarrow> Inl e
      | Inr True \<Rightarrow> Inr True
      | Inr False \<Rightarrow>
          (case field_includes w op ''description'' lowerPattern of
             Inl e \<Rightarrow> Inl e
           | Inr True \<Rightarrow> Inr True
           | Inr False \<Rightarrow> inMeta w ops lowerPattern))"

definition patternMatch :: "world \<Rightarrow> string option \<Rightarrow> string \<Rightarrow> jv \<Rightarrow> error + bool" where
  "patternMatch w path_pattern pathKey pathValue =
     (case path_pattern of
        None \<Rightarrow> Inr True
      | Some pat \<Rightarrow>
          if pat = [] then Inr True
          else (case inMeta w (getOperations (store w) pathValue) (toLowerCase w pat) of
                  Inl e \<Rightarrow> Inl e
                | Inr m \<Rightarrow>
                    Inr (str_includes (toLowerCase w pathKey) (toLowerCase w pat) \<or> m)))"

text \<open>
  \<^verbatim>\<open>op && op.tags && op.tags.includes(tag)\<close>: \<open>includes\<close> of an array compares elements,
  \<open>includes\<close> of a string searches a substring, any other value has no such function.
\<close>

definition tags_include :: "heap \<Rightarrow> jv \<Rightarrow> string \<Rightarrow> error + bool" where
  "tags_include h op tag =
     (if \<not> truthy (getp h op ''tags'') then Inr False
      else (case resolve h (getp h op ''tags'') of
          JArr xs \<Rightarrow> Inr (JStr tag \<in> set xs)
        | JStr s \<Rightarrow> Inr (str_includes s tag)
        | _ \<Rightarrow> Inl TypeError))"

fun tagLoop :: "heap \<Rightarrow> jv list \<Rightarrow> string \<Rightarrow> error + bool" where
  "tagLoop h [] tag = Inr False"
| "tagLoop h (op # ops) tag =
     (case tags_include h op tag of
        Inl e \<Rightarrow> Inl e
      | Inr True \<Rightarrow> Inr True
      | Inr False \<Rightarrow> tagLoop h ops tag)"

definition tagMatch :: "heap \<Rightarrow> string option \<Rightarrow> jv \<Rightarrow> error + bool" where
  "tagMatch h tag pathValue =
     (case tag of
        None \<Rightarrow> Inr True
      | Some t \<Rightarrow> if t = [] then Inr True else tagLoop h (getOperations h pathValue) t)"

text \<open>
  The loop over \<^verbatim>\<open>Object.entries(paths)\<close>; the last argument is the state it updates,
  \<open>filteredPaths\<close> and \<open>matchCount\<close>.  \<^verbatim>\<open>filteredPaths[pathKey] = pathValue\<close> creates a
  property unless the key is \<open>__proto__\<close> (see \<open>assigned\<close>); \<open>matchCount\<close> is incremented
  in either case.
\<close>

fun filterPaths :: "world \<Rightarrow> string option \<Rightarrow> string option \<Rightarrow> (string \<times> jv) list
    \<Rightarrow> (string \<times> jv) list \<times> nat \<Rightarrow> error + ((string \<times> jv) list \<times> nat)" where
  "filterPaths w path_pattern tag [] acc = Inr acc"
| "filterPaths w path_pattern tag ((pathKey, pathValue) # rest) (filteredPaths, matchCount) =
     (if \<not> truthy pathValue then filterPaths w path_pattern tag rest (filteredPaths, matchCount)
      else (case patternMatch w path_pattern pathKey pathValue of
          Inl e \<Rightarrow> Inl e
        | Inr False \<Rightarrow> filterPaths w path_pattern tag rest (filteredPaths, matchCount)
        | Inr True \<Rightarrow>
            (case tagMatch (store w) tag pathValue of
               Inl e \<Rightarrow> Inl e
             | Inr True \<Rightarrow>
                 filterPaths w path_pattern tag rest
                   (filteredPaths @ assigned [(pathKey, pathValue)], matchCount + 1)
             | Inr False \<Rightarrow> filterPaths w path_pattern tag rest (filteredPaths, matchCount))))"

subsection \<open>Mock responses\<close>

text \<open>
  The body of the loop over the methods of a simplified path item: the first status code
  that starts with \<open>2\<close> (else \<open>200\<close>), the schema under the first media type of its
  \<open>content\<close> (else its flat \<open>schema\<close>), and \<^verbatim>\<open>op.mock_response = generateMockData(schema)\<close>.
\<close>

definition mockOperation :: "world \<Rightarrow> jv \<Rightarrow> error + jv" where
  "mockOperation w op =
     (let h = store w;
          successCode =
            (case find (\<lambda>c. take 1 c = ''2'')
                    (map fst (entries h (js_or (getp h op ''responses'') (JObj [])))) of
               Some c \<Rightarrow> c
             | None \<Rightarrow> ''200'');
          respObj = getp h (getp h op ''responses'') successCode
      in if truthy respObj then
           (let mediaType =
                  (if truthy (getp h respObj ''content'')
                   then (case map fst (entries h (getp h respObj ''content'')) of
                           [] \<Rightarrow> None
                         | k # _ \<Rightarrow> Some k)
                   else None);
                schema =
                  (case mediaType of
                     Some k \<Rightarrow>
                       if k \<noteq> [] then
                         (if nullish (getp h (getp h respObj ''content'') k) then JUndef
                          else getp h (getp h (getp h respObj ''content'') k) ''schema'')
                       else getp h respObj ''schema''
                   | None \<Rightarrow> getp h respObj ''schema'')
            in if truthy schema then
                 (case generateMockData (stack_limit w) w schema of
                    Inl e \<Rightarrow> Inl e
                  | Inr m \<Rightarrow> Inr (set_prop op ''mock_response'' m))
               else Inr op)
         else Inr op)"

definition mockPaths :: "world \<Rightarrow> jv \<Rightarrow> error + jv" where
  "mockPaths w simplifiedPaths =
     (case map_err
             (\<lambda>(pathKey, pathItem).
                case map_err
                       (\<lambda>(method, op). case mockOperation w op of
                                          Inl e \<Rightarrow> Inl e
                                        | Inr op' \<Rightarrow> Inr (method, op'))
                       (entries (store w) pathItem) of
                  Inl e \<Rightarrow> Inl e
                | Inr ops \<Rightarrow> Inr (pathKey, JObj ops))
             (entries (store w) simplifiedPaths) of
        Inl e \<Rightarrow> Inl e
      | Inr paths \<Rightarrow> Inr (JObj paths))"

subsection \<open>The result object\<close>

definition baseUrl :: "world \<Rightarrow> string \<Rightarrow> jv \<Rightarrow> jv" where
  "baseUrl w url anyApi =
     (let h = store w in
      if truthy (getp h anyApi ''host'') then
        JStr ((if isArray h (getp h anyApi ''schemes'')
                  \<and> js_gt0 w (getp h (getp h anyApi ''schemes'') ''length'')
               then to_string w (getp h (getp h anyApi ''schemes'') ''0'')
               else remove1 (CHR '':'') (url_protocol w url))
              @ ''://'' @ to_string w (getp h anyApi ''host'')
              @ to_string w (js_or (getp h anyApi ''basePath'') (JStr [])))
      else js_or
             (if nullish (getp h anyApi ''servers'') then JUndef
              else if nullish (getp h (getp h anyApi ''servers'') ''0'') then JUndef
              else getp h (getp h (getp h anyApi ''servers'') ''0'') ''url'')
             (JStr []))"

fun opt_str :: "string option \<Rightarrow> jv" where
  "opt_str None = JUndef"
| "opt_str (Some s) = JStr s"

definition build_result :: "world \<Rightarrow> args \<Rightarrow> jv \<Rightarrow> nat \<Rightarrow> jv \<Rightarrow> jv" where
  "build_result w a api matchCount simplifiedPaths =
     JObj [(''_meta'',
              JObj [(''url'', JStr (arg_url a)),
                    (''filtered_count'', JNum (int matchCount)),
                    (''filters'',
                       JObj [(''path_pattern'', opt_str (arg_path_pattern a)),
                             (''tag'', opt_str (arg_tag a))])]),
           (''baseUrl'', baseUrl w (arg_url a) api),
           (''paths'', simplifiedPaths)]"

subsection \<open>Type definitions\<close>

text \<open>What the \<open>generate_ts\<close> block appends to \<open>finalText\<close>, and whether it calls \<open>compile\<close>.\<close>

definition typesSuffix :: "world \<Rightarrow> jv \<Rightarrow> string \<times> event list" where
  "typesSuffix w api =
     (let h = store w;
          definitions =
            js_or (if nullish (getp h api ''components'') then JUndef
                   else getp h (getp h api ''components'') ''schemas'')
                  (getp h api ''definitions'')
      in if truthy definitions then
           (case compile w (JObj [(''definitions'', definitions),
                                  (''components'', JObj [(''schemas'', definitions)]),
                                  (''type'', JStr ''object''),
                                  (''additionalProperties'', JBool False)]) of
              Inr ts \<Rightarrow>
                (newline @ newline @ ''/* ----- Generated TypeScript Definitions ----- */''
                   @ newline @ ts, [Types])
            | Inl e \<Rightarrow>
                (newline @ newline @ ''/* [TS Generation Error]: '' @ message w e @ '' */'', [Types]))
         else ([], []))"

subsection \<open>The handler\<close>

text \<open>\<open>zh_none\<close> is the word the diagnostic prints for a filter that is not set.\<close>

definition zh_none :: string where
  "zh_none = [CHR 0xE6, CHR 0x97, CHR 0xA0]"

fun or_none :: "string option \<Rightarrow> string" where
  "or_none None = zh_none"
| "or_none (Some s) = (if s \<noteq> [] then s else zh_none)"

definition no_match_head :: string where
  "no_match_head =
     [CHR 0xE6, CHR 0x9C, CHR 0xAA, CHR 0xE6, CHR 0x89, CHR 0xBE, CHR 0xE5, CHR 0x88, CHR 0xB0,
      CHR 0xE5, CHR 0x8C, CHR 0xB9, CHR 0xE9, CHR 0x85, CHR 0x8D, CHR 0xE7, CHR 0x9A, CHR 0x84,
      CHR 0xE6, CHR 0x8E, CHR 0xA5, CHR 0xE5, CHR 0x8F, CHR 0xA3, CHR 0xE3, CHR 0x80, CHR 0x82,
      CHR 0x0A]
     @ ''path_pattern: ''"

definition no_match_tail :: string where
  "no_match_tail =
     [CHR 0x0A, CHR 0x0A, CHR 0xE8, CHR 0xAF, CHR 0xB7, CHR 0xE5, CHR 0xB0, CHR 0x9D, CHR 0xE8,
      CHR 0xAF, CHR 0x95, CHR 0xE4, CHR 0xBD, CHR 0xBF, CHR 0xE7, CHR 0x94, CHR 0xA8]
     @ '' list_controller_tags ''
     @ [CHR 0xE6, CHR 0x9F, CHR 0xA5, CHR 0xE7, CHR 0x9C, CHR 0x8B, CHR 0xE5, CHR 0x8F, CHR 0xAF,
        CHR 0xE7, CHR 0x94, CHR 0xA8, CHR 0xE6, CHR 0xA8, CHR 0xA1, CHR 0xE5, CHR 0x9D, CHR 0x97,
        CHR 0xEF, CHR 0xBC, CHR 0x8C, CHR 0xE6, CHR 0x88, CHR 0x96, CHR 0xE6, CHR 0xA3, CHR 0x80,
        CHR 0xE6, CHR 0x9F, CHR 0xA5, CHR 0xE5, CHR 0x85, CHR 0xB3, CHR 0xE9, CHR 0x94, CHR 0xAE,
        CHR 0xE8, CHR 0xAF, CHR 0x8D, CHR 0xE3, CHR 0x80, CHR 0x82]"

text \<open>
  The text of the zero-match branch:
  \<^verbatim>\<open>...\npath_pattern: ${path_pattern || none}\ntag: ${tag || none}\n\n...\<close>.
\<close>

definition no_match_text :: "string option \<Rightarrow> string option \<Rightarrow> string" where
  "no_match_text path_pattern tag =
     no_match_head @ or_none path_pattern @ (newline @ ''tag: '') @ or_none tag @ no_match_tail"

definition failure_head :: string where
  "failure_head =
     [CHR 0xE6, CHR 0x93, CHR 0x8D, CHR 0xE4, CHR 0xBD, CHR 0x9C, CHR 0xE5, CHR 0xA4, CHR 0xB1,
      CHR 0xE8, CHR 0xB4, CHR 0xA5]
     @ '': ''"

definition failure_tail :: string where
  "failure_tail =
     [CHR 0x0A, CHR 0xE8, CHR 0xAF, CHR 0xB7, CHR 0xE6, CHR 0xA3, CHR 0x80, CHR 0xE6, CHR 0x9F,
      CHR 0xA5]
     @ '' URL ''
     @ [CHR 0xE6, CHR 0x98, CHR 0xAF, CHR 0xE5, CHR 0x90, CHR 0xA6, CHR 0xE6, CHR 0xAD, CHR 0xA3,
        CHR 0xE7, CHR 0xA1, CHR 0xAE, CHR 0xE6, CHR 0x88, CHR 0x96, CHR 0xE6, CHR 0x9C, CHR 0x8D,
        CHR 0xE5, CHR 0x8A, CHR 0xA1, CHR 0xE6, CHR 0x98, CHR 0xAF, CHR 0xE5, CHR 0x90, CHR 0xA6,
        CHR 0xE5, CHR 0x8F, CHR 0xAF, CHR 0xE7, CHR 0x94, CHR 0xA8, CHR 0xE3, CHR 0x80, CHR 0x82]"

text \<open>The text of the \<open>catch\<close> block, around \<^verbatim>\<open>error.message\<close>.\<close>

definition failure_text :: "string \<Rightarrow> string" where
  "failure_text msg = failure_head @ msg @ failure_tail"

text \<open>
  What the \<open>try\<close> block of the handler has computed when it returns: the diagnostic of the
  zero-match branch, or \<open>safeResult\<close> and the text appended to its JSON rendering.
\<close>

datatype outcome = NoMatch string | Payload jv string

text \<open>
  From \<open>filteredPaths\<close> to \<open>safeResult\<close>: \<open>simplifyPaths\<close>, the mock loop, the \<open>result\<close>
  object, and \<^verbatim>\<open>sanitizeRecursive(result, 0, 30)\<close>.
\<close>

definition safeResult :: "world \<Rightarrow> args \<Rightarrow> jv \<Rightarrow> (string \<times> jv) list \<Rightarrow> nat
    \<Rightarrow> (error + jv) \<times> event list" where
  "safeResult w a api filteredPaths matchCount =
     (case simplifyPaths (store w) (JObj filteredPaths) of
        Inl e \<Rightarrow> (Inl e, [Normalize])
      | Inr simplifiedPaths \<Rightarrow>
          if arg_generate_mock a then
            (case mockPaths w simplifiedPaths of
               Inl e \<Rightarrow> (Inl e, [Normalize, Mock])
             | Inr mocked \<Rightarrow>
                 (case sanitizeRecursive (stack_limit w) (store w)
                         (build_result w a api matchCount mocked) 0 30 {} of
                    Inl e \<Rightarrow> (Inl e, [Normalize, Mock, Sanitize])
                  | Inr (safe, seen) \<Rightarrow> (Inr safe, [Normalize, Mock, Sanitize])))
          else
            (case sanitizeRecursive (stack_limit w) (store w)
                    (build_result w a api matchCount simplifiedPaths) 0 30 {} of
               Inl e \<Rightarrow> (Inl e, [Normalize, Sanitize])
             | Inr (safe, seen) \<Rightarrow> (Inr safe, [Normalize, Sanitize])))"

text \<open>The \<open>try\<close> block after the arguments have been parsed.\<close>

definition read_swagger_api_run :: "world \<Rightarrow> args \<Rightarrow> (error + outcome) \<times> event list" where
  "read_swagger_api_run w a =
     (case getSwaggerApi w (arg_url a) (arg_use_fallback a) of
        (Inl e, tr) \<Rightarrow> (Inl e, tr)
      | (Inr api, tr) \<Rightarrow>
          if nullish api then (Inl TypeError, tr)
          else (case filterPaths w (arg_path_pattern a) (arg_tag a)
                       (entries (store w) (js_or (getp (store w) api ''paths'') (JObj [])))
                       ([], 0) of
              Inl e \<Rightarrow> (Inl e, tr)
            | Inr (filteredPaths, matchCount) \<Rightarrow>
                if matchCount = 0
                then (Inr (NoMatch (no_match_text (arg_path_pattern a) (arg_tag a))), tr)
                else (case safeResult w a api filteredPaths matchCount of
                    (Inl e, tr') \<Rightarrow> (Inl e, tr @ tr')
                  | (Inr safe, tr') \<Rightarrow>
                      if arg_generate_ts a
                      then (Inr (Payload safe (fst (typesSuffix w api))),
                            tr @ tr' @ snd (typesSuffix w api))
                      else (Inr (Payload safe []), tr @ tr'))))"

definition read_swagger_api_try :: "world \<Rightarrow> raw_args \<Rightarrow> (error + outcome) \<times> event list" where
  "read_swagger_api_try w raw =
     (case parse_args w raw of
        Inl e \<Rightarrow> (Inl e, [])
      | Inr a \<Rightarrow> read_swagger_api_run w a)"

record tool_result =
  result_text :: string
  result_isError :: bool

definition read_swagger_api :: "world \<Rightarrow> raw_args \<Rightarrow> tool_result \<times> event list" where
  "read_swagger_api w raw =
     (case read_swagger_api_try w raw of
        (Inr (NoMatch diagnostic), tr) \<Rightarrow>
          (\<lparr>result_text = diagnostic, result_isError = False\<rparr>, tr)
      | (Inr (Payload safe appended), tr) \<Rightarrow>
          (\<lparr>result_text = stringify w safe @ appended, result_isError = False\<rparr>, tr)
      | (Inl error, tr) \<Rightarrow>
          (\<lparr>result_text = failure_text (message w error), result_isError = True\<rparr>, tr))"

section \<open>The notions of the specification\<close>

text \<open>
  What the sanitizer is to return, said of the result and not of the traversal.
  \<open>copy_of h maxDepth d v out vs\<close>: \<open>out\<close> is a copy of the value \<open>v\<close>, which stands at
  depth \<open>d\<close>, cut below \<open>maxDepth\<close>.
  A value deeper than \<open>maxDepth\<close> is replaced by the truncation marker; a primitive value
  within the bound is itself; an array within the bound becomes an array of copies of its
  items, an object an object with the same keys in the same order (\<open>__proto__\<close> apart, see
  \<open>assigned\<close>) and copies of their values, both one level deeper; and an object of the
  store may be replaced by the circular-reference marker instead.  \<open>vs\<close> lists the stored
  objects in the order in which the copy meets them, each with \<open>True\<close> if it is copied there
  and \<open>False\<close> if it is replaced by the marker.
\<close>

inductive copy_of :: "heap \<Rightarrow> nat \<Rightarrow> nat \<Rightarrow> jv \<Rightarrow> jv \<Rightarrow> (addr \<times> bool) list \<Rightarrow> bool"
  and copies_of :: "heap \<Rightarrow> nat \<Rightarrow> nat \<Rightarrow> jv list \<Rightarrow> jv list \<Rightarrow> (addr \<times> bool) list \<Rightarrow> bool"
where
  cut: "d > m \<Longrightarrow> copy_of h m d v (JStr (truncated m)) []"
| primitive: "d \<le> m \<Longrightarrow> is_primitive v \<Longrightarrow> copy_of h m d v v []"
| marked: "d \<le> m \<Longrightarrow> copy_of h m d (JRef a) (JStr circular) [(a, False)]"
| stored_array:
    "d \<le> m \<Longrightarrow> h a = HArr items \<Longrightarrow> copies_of h m (d + 1) items outs vs \<Longrightarrow>
     copy_of h m d (JRef a) (JArr outs) ((a, True) # vs)"
| stored_object:
    "d \<le> m \<Longrightarrow> h a = HObj kvs \<Longrightarrow> copies_of h m (d + 1) (map snd kvs) outs vs \<Longrightarrow>
     copy_of h m d (JRef a) (JObj (assigned (zip (map fst kvs) outs))) ((a, True) # vs)"
| inline_array:
    "d \<le> m \<Longrightarrow> copies_of h m (d + 1) items outs vs \<Longrightarrow>
     copy_of h m d (JArr items) (JArr outs) vs"
| inline_object:
    "d \<le> m \<Longrightarrow> copies_of h m (d + 1) (map snd kvs) outs vs \<Longrightarrow>
     copy_of h m d (JObj kvs) (JObj (assigned (zip (map fst kvs) outs))) vs"
| no_member: "copies_of h m d [] [] []"
| member:
    "copy_of h m d x y vs \<Longrightarrow> copies_of h m d xs ys ws \<Longrightarrow>
     copies_of h m d (x # xs) (y # ys) (vs @ ws)"

code_pred copy_of .

text \<open>
  \<open>first_visits seen vs\<close>: in the list \<open>vs\<close> a stored object is copied where it is met for
  the first time, not being in \<open>seen\<close> either, and replaced by the marker everywhere else.
\<close>

fun first_visits :: "addr set \<Rightarrow> (addr \<times> bool) list \<Rightarrow> bool" where
  "first_visits seen [] = True"
| "first_visits seen ((a, copied) # vs) =
     (copied = (a \<notin> seen) \<and> first_visits (insert a seen) vs)"

text \<open>
  The filter as the specification words it.  \<open>contains_ci w s k\<close>: \<open>s\<close> contains \<open>k\<close>
  case-insensitively, that is, once the engine has lowered both; \<open>text_contains w op field k\<close>:
  the operation has a text in \<open>field\<close> that contains \<open>k\<close> case-insensitively;
  \<open>lists_tag h op t\<close>: the operation's list of tags has the element \<open>t\<close>.
\<close>

definition contains_ci :: "world \<Rightarrow> string \<Rightarrow> string \<Rightarrow> bool" where
  "contains_ci w s k = str_includes (toLowerCase w s) (toLowerCase w k)"

definition text_contains :: "world \<Rightarrow> jv \<Rightarrow> string \<Rightarrow> string \<Rightarrow> bool" where
  "text_contains w op field k =
     (case getp (store w) op field of JStr s \<Rightarrow> contains_ci w s k | _ \<Rightarrow> False)"

definition lists_tag :: "heap \<Rightarrow> jv \<Rightarrow> string \<Rightarrow> bool" where
  "lists_tag h op t =
     (case resolve h (getp h op ''tags'') of JArr xs \<Rightarrow> JStr t \<in> set xs | _ \<Rightarrow> False)"

definition keyword_passes :: "world \<Rightarrow> string option \<Rightarrow> string \<times> jv \<Rightarrow> bool" where
  "keyword_passes w keyword entry =
     (case keyword of
        None \<Rightarrow> True
      | Some k \<Rightarrow>
          contains_ci w (fst entry) k
          \<or> list_ex (\<lambda>op. text_contains w op ''summary'' k \<or> text_contains w op ''description'' k)
               (getOperations (store w) (snd entry)))"

text \<open>The predicate of claim C7, word for word.\<close>

definition retained_as_claimed :: "world \<Rightarrow> string option \<Rightarrow> string option \<Rightarrow> string \<times> jv \<Rightarrow> bool" where
  "retained_as_claimed w keyword tag entry =
     (keyword_passes w keyword entry
      \<and> (case tag of
           None \<Rightarrow> True
         | Some t \<Rightarrow> list_ex (\<lambda>op. lists_tag (store w) op t) (getOperations (store w) (snd entry))))"

text \<open>
  The predicate the loop computes: an empty tag filters nothing, and an entry whose path
  item is not truthy (\<open>null\<close>, \<open>false\<close>, \<open>0\<close>, the empty string) is skipped.
\<close>

definition retained :: "world \<Rightarrow> string option \<Rightarrow> string option \<Rightarrow> string \<times> jv \<Rightarrow> bool" where
  "retained w keyword tag entry =
     (truthy (snd entry)
      \<and> keyword_passes w keyword entry
      \<and> (case tag of
           None \<Rightarrow> True
         | Some t \<Rightarrow>
             t = [] \<or> list_ex (\<lambda>op. lists_tag (store w) op t) (getOperations (store w) (snd entry))))"

text \<open>
  The typing the document format gives an operation: \<open>summary\<close> and \<open>description\<close> are
  strings where present, \<open>tags\<close> is an array where present.  A paths collection is typed so
  when its operations are and no path is named \<open>__proto__\<close>.
\<close>

fun text_or_absent :: "jv \<Rightarrow> bool" where
  "text_or_absent JUndef = True"
| "text_or_absent JNull = True"
| "text_or_absent (JStr s) = True"
| "text_or_absent _ = False"

definition well_typed_operation :: "heap \<Rightarrow> jv \<Rightarrow> bool" where
  "well_typed_operation h op =
     (text_or_absent (getp h op ''summary'')
      \<and> text_or_absent (getp h op ''description'')
      \<and> (truthy (getp h op ''tags'') \<longrightarrow> isArray h (getp h op ''tags'')))"

definition well_typed_paths :: "heap \<Rightarrow> (string \<times> jv) list \<Rightarrow> bool" where
  "well_typed_paths h es =
     list_all (\<lambda>entry. fst entry \<noteq> ''__proto__''
                 \<and> list_all (well_typed_operation h) (getOperations h (snd entry))) es"

text \<open>
  The responses of a document that the normalizer gives a place in its result (those of the
  operations it keeps; a path or a status code named \<open>__proto__\<close> gets none, see
  \<open>assigned\<close>), the response descriptors of a normalized projection in the same order, and
  the descriptor of one response.
\<close>

definition kept_operations :: "heap \<Rightarrow> jv \<Rightarrow> jv list" where
  "kept_operations h pathValue =
     map snd
       (filter (\<lambda>(method, operation).
                  method \<in> HTTP_METHODS \<and> typeof_object operation \<and> operation \<noteq> JNull)
          (entries h pathValue))"

definition input_responses :: "heap \<Rightarrow> jv \<Rightarrow> jv list" where
  "input_responses h paths =
     concat (map (\<lambda>pathValue.
                    concat (map (\<lambda>op. map snd (assigned (entries h (js_or (getp h op ''responses'')
                                                                    (JObj [])))))
                              (kept_operations h pathValue)))
               (map snd (assigned (filter (\<lambda>(pathKey, pathValue). truthy pathValue)
                                     (entries h paths)))))"

definition response_descriptors :: "heap \<Rightarrow> jv \<Rightarrow> jv list" where
  "response_descriptors h projection =
     concat (map (\<lambda>item.
                    concat (map (\<lambda>op. map snd (entries h (getp h op ''responses'')))
                              (map snd (entries h item))))
               (map snd (entries h projection)))"

definition descriptor_of :: "heap \<Rightarrow> jv \<Rightarrow> jv" where
  "descriptor_of h r =
     JObj [(''description'', js_or (getp h r ''description'') (JStr [])),
           (''content'', getp h r ''content''),
           (''schema'', getp h r ''schema'')]"

text \<open>A field is populated when it has a value.\<close>

definition populated :: "jv \<Rightarrow> bool" where
  "populated v = (v \<noteq> JUndef)"

definition exactly_one_populated :: "heap \<Rightarrow> jv \<Rightarrow> bool" where
  "exactly_one_populated h d =
     (populated (getp h d ''content'') \<noteq> populated (getp h d ''schema''))"

section \<open>Example inputs\<close>

text \<open>The engine of the examples lowers the letters A to Z, which is all they contain.\<close>

definition lower_char :: "char \<Rightarrow> char" where
  "lower_char c =
     (case map_of (zip ''ABCDEFGHIJKLMNOPQRSTUVWXYZ'' ''abcdefghijklmnopqrstuvwxyz'') c of
        Some l \<Rightarrow> l
      | None \<Rightarrow> c)"

definition cyclic_store :: heap where
  "cyclic_store a =
     (if a = 0 then HObj [(''a'', JRef 1), (''self'', JRef 0)]
      else if a = 1 then HArr [JRef 2]
      else HObj [(''n'', JNum 7)])"

definition shared_store :: heap where
  "shared_store a =
     (if a = 0 then HArr [JRef 1, JRef 1]
      else HObj [(''x'', JNum 1)])"

text \<open>
  An engine that lowers the letter E with an acute accent as well: the two units
  \<open>C3 89\<close> here, its lower-case form \<open>C3 A9\<close>.
\<close>

fun lower_latin :: "string \<Rightarrow> string" where
  "lower_latin [] = []"
| "lower_latin [c] = [lower_char c]"
| "lower_latin (c # d # cs) =
     (if c = CHR 0xC3 \<and> d = CHR 0x89 then CHR 0xC3 # CHR 0xA9 # lower_latin cs
      else lower_char c # lower_latin (d # cs))"

definition proto_store :: heap where
  "proto_store a =
     (if a = 0 then HObj [(''__proto__'', JRef 1), (''b'', JRef 1)]
      else HObj [(''x'', JNum 1)])"

definition example_world :: "heap \<Rightarrow> world" where
  "example_world h =
     \<lparr>store = h, valid_url = (\<lambda>u. True), zod_issues = (\<lambda>r. []),
      url_protocol = (\<lambda>u. ''http:''), dereference = (\<lambda>u. Inr (JRef 0)),
      fetch = (\<lambda>u. Inl (Error ''unreachable'')), stringify = (\<lambda>v. []),
      compile = (\<lambda>v. Inr []), js_String = (\<lambda>v. []), js_positive = (\<lambda>v. False),
      toLowerCase = map lower_char, stack_limit = 100, type_error_message = ''TypeError'',
      range_error_message = ''Maximum call stack size exceeded''\<rparr>"

definition false_example_store :: heap where
  "false_example_store a = HObj [(''type'', JStr ''boolean''), (''example'', JBool False)]"

definition object_example_store :: heap where
  "object_example_store a =
     (if a = 0 then HObj [(''type'', JStr ''string''), (''example'', JRef 1)]
      else HObj [(''x'', JNum 1)])"

definition empty_content_type :: response where
  "empty_content_type =
     \<lparr>resp_ok = True, resp_status = 200, resp_statusText = ''OK'',
      resp_content_type = Some [], resp_text = Inr ''{}'', resp_json = Inr (JRef 0)\<rparr>"

definition html_response :: response where
  "html_response =
     \<lparr>resp_ok = True, resp_status = 200, resp_statusText = ''OK'',
      resp_content_type = Some ''Text/HTML'', resp_text = Inr ''<html>'',
      resp_json = Inl (Error ''Unexpected token'')\<rparr>"

definition failing_world :: "response \<Rightarrow> world" where
  "failing_world r =
     (example_world (\<lambda>a. HObj []))
       \<lparr>dereference := (\<lambda>u. Inl (Error ''bad ref'')), fetch := (\<lambda>u. Inr r)\<rparr>"

definition no_header_response :: response where
  "no_header_response =
     \<lparr>resp_ok = True, resp_status = 200, resp_statusText = ''OK'',
      resp_content_type = None, resp_text = Inr ''{}'', resp_json = Inr (JRef 0)\<rparr>"

definition two_paths_store :: heap where
  "two_paths_store a =
     (if a = 0 then HObj [(''paths'', JRef 1)]
      else if a = 1 then HObj [(''/a'', JRef 2), (''/b'', JRef 3)]
      else if a = 2 then HObj [(''get'', JRef 4)]
      else if a = 3 then HObj [(''get'', JRef 5)]
      else HObj [])"

definition plain_args :: raw_args where
  "plain_args =
     \<lparr>raw_url = ''http://h/doc'', raw_use_fallback = None, raw_path_pattern = None,
      raw_tag = None, raw_generate_ts = None, raw_generate_mock = None,
      raw_max_depth = None, raw_limit_paths = None, raw_limit_ops = None\<rparr>"

definition plain_parsed :: args where
  "plain_parsed =
     \<lparr>arg_url = ''http://h/doc'', arg_use_fallback = True, arg_path_pattern = None,
      arg_tag = None, arg_generate_ts = True, arg_generate_mock = False,
      arg_max_depth = 20, arg_limit_paths = 50, arg_limit_ops = 200\<rparr>"

definition two_paths_payload :: jv where
  "two_paths_payload =
     JObj
       [(''_meta'',
           JObj [(''url'', JStr ''http://h/doc''),
                 (''filtered_count'', JNum 2),
                 (''filters'', JObj [(''path_pattern'', JUndef), (''tag'', JUndef)])]),
        (''baseUrl'', JStr []),
        (''paths'',
           JObj
             [(''/a'',
                 JObj [(''get'',
                    JObj [(''summary'', JStr []), (''description'', JStr []),
                          (''operationId'', JStr []), (''tags'', JArr []),
                          (''parameters'', JArr []), (''requestBody'', JUndef),
                          (''responses'', JObj [])])]),
              (''/b'',
                 JObj [(''get'',
                    JObj [(''summary'', JStr []), (''description'', JStr []),
                          (''operationId'', JStr []), (''tags'', JArr []),
                          (''parameters'', JArr []), (''requestBody'', JUndef),
                          (''responses'', JObj [])])])])]"

definition tagged_store :: heap where
  "tagged_store a =
     (if a = 0 then HObj [(''swagger'', JStr ''2.0''), (''paths'', JRef 1)]
      else if a = 1 then HObj [(''/users/{id}'', JRef 2), (''/orders'', JRef 3)]
      else if a = 2 then HObj [(''get'', JRef 4)]
      else if a = 3 then HObj [(''get'', JRef 5), (''x-internal'', JBool True)]
      else if a = 4 then HObj [(''summary'', JStr ''Get a user''), (''tags'', JRef 6)]
      else if a = 5 then HObj [(''summary'', JStr ''List orders''), (''tags'', JRef 7)]
      else if a = 6 then HArr [JStr ''Users'']
      else if a = 7 then HArr [JStr ''Orders'']
      else HObj [])"

definition no_content_store :: heap where
  "no_content_store a =
     (if a = 0 then HObj [(''paths'', JRef 1)]
      else if a = 1 then HObj [(''/ping'', JRef 2)]
      else if a = 2 then HObj [(''get'', JRef 3)]
      else if a = 3 then HObj [(''responses'', JRef 4)]
      else if a = 4 then HObj [(''200'', JRef 5), (''204'', JRef 6)]
      else if a = 5 then HObj [(''description'', JStr ''pong''), (''schema'', JRef 7)]
      else if a = 6 then HObj [(''description'', JStr ''No Content'')]
      else if a = 7 then HObj [(''type'', JStr ''string'')]
      else HObj [])"

definition no_content_projection :: jv where
  "no_content_projection =
     JObj [(''/ping'',
        JObj [(''get'',
           JObj [(''summary'', JStr []), (''description'', JStr []),
                 (''operationId'', JStr []), (''tags'', JArr []),
                 (''parameters'', JArr []), (''requestBody'', JUndef),
                 (''responses'',
                    JObj [(''200'',
                             JObj [(''description'', JStr ''pong''),
                                   (''content'', JUndef),
                                   (''schema'', JRef 7)]),
                          (''204'',
                             JObj [(''description'', JStr ''No Content''),
                                   (''content'', JUndef),
                                   (''schema'', JUndef)])])])])]"

definition body_param_store :: heap where
  "body_param_store a =
     (if a = 0 then HObj [(''swagger'', JStr ''2.0''), (''paths'', JRef 1)]
      else if a = 1 then HObj [(''/pets'', JRef 2)]
      else if a = 2 then HObj [(''post'', JRef 3)]
      else if a = 3 then HObj [(''parameters'', JRef 4)]
      else if a = 4 then HArr [JRef 5]
      else if a = 5 then
        HObj [(''name'', JStr ''pet''), (''in'', JStr ''body''), (''schema'', JRef 6)]
      else if a = 6 then HObj [(''type'', JStr ''object'')]
      else HObj [])"

definition body_param_payload :: jv where
  "body_param_payload =
     JObj
       [(''_meta'',
           JObj [(''url'', JStr ''http://h/doc''),
                 (''filtered_count'', JNum 1),
                 (''filters'', JObj [(''path_pattern'', JUndef), (''tag'', JUndef)])]),
        (''baseUrl'', JStr []),
        (''paths'',
           JObj
             [(''/pets'',
                 JObj [(''post'',
                    JObj [(''summary'', JStr []), (''description'', JStr []),
                          (''operationId'', JStr []), (''tags'', JArr []),
                          (''parameters'',
                             JArr [JObj [(''name'', JStr ''pet''), (''in'', JStr ''body''),
                                         (''required'', JUndef), (''description'', JUndef),
                                         (''schema'', JObj [(''type'', JStr ''object'')])]]),
                          (''requestBody'',
                             JObj [(''required'', JUndef), (''description'', JUndef),
                                   (''schema'', JStr ''[Circular Ref]'')]),
                          (''responses'', JObj [])])])])]"

section \<open>Strings and evaluation\<close>

text \<open>
  \<open>str_includes s p\<close> holds exactly when \<open>p\<close> occurs in \<open>s\<close> as a contiguous piece.
\<close>

lemma take_length_eq_iff: "(take (length p) s = p) = (\<exists>b. s = p @ b)"
proof
  assume "take (length p) s = p"
  then have "s = p @ drop (length p) s" by (metis append_take_drop_id)
  then show "\<exists>b. s = p @ b" ..
next
  assume "\<exists>b. s = p @ b"
  then show "take (length p) s = p" by auto
qed

lemma str_includes_iff: "str_includes s p = (\<exists>a b. s = a @ p @ b)"
proof (induction s)
  case Nil
  show ?case by auto
next
  case (Cons c cs)
  show ?case
  proof
    assume "str_includes (c # cs) p"
    then consider "take (length p) (c # cs) = p" | "str_includes cs p" by auto
    then show "\<exists>a b. c # cs = a @ p @ b"
    proof cases
      case 1
      then obtain b where "c # cs = p @ b" using take_length_eq_iff by blast
      then have "c # cs = [] @ p @ b" by simp
      then show ?thesis by blast
    next
      case 2
      then obtain a b where "cs = a @ p @ b" using Cons.IH by blast
      then have "c # cs = (c # a) @ p @ b" by simp
      then show ?thesis by blast
    qed
  next
    assume "\<exists>a b. c # cs = a @ p @ b"
    then obtain a b where ab: "c # cs = a @ p @ b" by blast
    show "str_includes (c # cs) p"
    proof (cases a)
      case Nil
      with ab have "take (length p) (c # cs) = p" by simp
      then show ?thesis by simp
    next
      case (Cons x a')
      with ab have "cs = a' @ p @ b" by simp
      then have "str_includes cs p" using Cons.IH by blast
      then show ?thesis by simp
    qed
  qed
qed

lemma str_includes_mid: "str_includes (a @ p @ b) p"
  using str_includes_iff by blast

lemma str_includes_end: "str_includes (a @ p) p"
  using str_includes_mid[of a p "[]"] by simp

text \<open>
  The definitions that evaluate property access and the handler on a concrete store.
\<close>

lemmas js_defs = resolve_def getp_def entries_def js_or_def isArray_def index_keys_def
  HTTP_METHODS_def HTTP_METHOD_ORDER_def getOperations_def

lemmas handler_defs = read_swagger_api_try_def read_swagger_api_run_def parse_args_def getSwaggerApi_def
  safeResult_def build_result_def baseUrl_def typesSuffix_def simplifyPaths_def
  simplifyPathItem_def simplifyOperation_def simplifyParameters_def simplifyResponses_def
  simplifyRequestBody_def patternMatch_def tagMatch_def

section \<open>The sanitizer: termination, truncation, repeated objects\<close>

text \<open>The equation of \<open>sanitizeRecursive\<close> for a stack given as a number.\<close>

lemma sanitizeRecursive_unfold:
  "0 < n \<Longrightarrow>
   sanitizeRecursive n h obj depth maxDepth seen =
     (if depth > maxDepth then Inr (JStr (truncated maxDepth), seen)
      else (case obj of
          JRef a \<Rightarrow>
            if a \<in> seen then Inr (JStr circular, seen)
            else (case h a of
                HArr items \<Rightarrow>
                  (case sanitize_each (n - 1) h items (depth + 1) maxDepth (insert a seen) of
                     Inl e \<Rightarrow> Inl e
                   | Inr (r, seen') \<Rightarrow> Inr (JArr r, seen'))
              | HObj kvs \<Rightarrow>
                  (case sanitize_each (n - 1) h (map snd kvs) (depth + 1) maxDepth (insert a seen) of
                     Inl e \<Rightarrow> Inl e
                   | Inr (r, seen') \<Rightarrow> Inr (JObj (assigned (zip (map fst kvs) r)), seen')))
        | JArr items \<Rightarrow>
            (case sanitize_each (n - 1) h items (depth + 1) maxDepth seen of
               Inl e \<Rightarrow> Inl e
             | Inr (r, seen') \<Rightarrow> Inr (JArr r, seen'))
        | JObj kvs \<Rightarrow>
            (case sanitize_each (n - 1) h (map snd kvs) (depth + 1) maxDepth seen of
               Inl e \<Rightarrow> Inl e
             | Inr (r, seen') \<Rightarrow> Inr (JObj (assigned (zip (map fst kvs) r)), seen'))
        | _ \<Rightarrow> Inr (obj, seen)))"
proof (cases n)
  case 0
  assume "0 < n"
  with 0 show ?thesis by simp
next
  case (Suc k)
  show ?thesis unfolding Suc diff_Suc_1 by (rule sanitizeRecursive.simps(2))
qed

lemmas sanitize_eval = sanitizeRecursive_unfold sanitizeRecursive.simps(1) assigned_def

lemma first_visits_append:
  "first_visits seen (vs @ ws)
     = (first_visits seen vs \<and> first_visits (seen \<union> fst ` set vs) ws)"
  by (induction vs arbitrary: seen) auto






text \<open>
  There is one such copy only: the shape of the input, the depth bound and the rule of first
  visits leave no choice.  So the two properties say what the sanitizer returns, all of it.
\<close>

lemma copy_of_cut: "copy_of h m d v out vs \<Longrightarrow> d > m \<Longrightarrow> out = JStr (truncated m) \<and> vs = []"
  by (erule copy_of.cases) auto

lemma copy_of_prim: "copy_of h m d v out vs \<Longrightarrow> d \<le> m \<Longrightarrow> is_primitive v \<Longrightarrow> out = v \<and> vs = []"
  by (erule copy_of.cases) auto

lemma copy_of_ref:
  "copy_of h m d (JRef a) out vs \<Longrightarrow> d \<le> m \<Longrightarrow>
   (out = JStr circular \<and> vs = [(a, False)])
   \<or> (\<exists>items outs ws. h a = HArr items \<and> out = JArr outs \<and> vs = (a, True) # ws
          \<and> copies_of h m (d + 1) items outs ws)
   \<or> (\<exists>kvs outs ws. h a = HObj kvs \<and> out = JObj (assigned (zip (map fst kvs) outs))
          \<and> vs = (a, True) # ws \<and> copies_of h m (d + 1) (map snd kvs) outs ws)"
  by (erule copy_of.cases) auto

lemma copy_of_arr:
  "copy_of h m d (JArr items) out vs \<Longrightarrow> d \<le> m \<Longrightarrow>
   \<exists>outs. out = JArr outs \<and> copies_of h m (d + 1) items outs vs"
  by (erule copy_of.cases) auto

lemma copy_of_obj:
  "copy_of h m d (JObj kvs) out vs \<Longrightarrow> d \<le> m \<Longrightarrow>
   \<exists>outs. out = JObj (assigned (zip (map fst kvs) outs))
      \<and> copies_of h m (d + 1) (map snd kvs) outs vs"
  by (erule copy_of.cases) auto

lemma copies_of_nil: "copies_of h m d [] outs vs \<Longrightarrow> outs = [] \<and> vs = []"
  by (erule copies_of.cases) auto

lemma copies_of_cons:
  "copies_of h m d (x # xs) outs vs \<Longrightarrow>
   \<exists>y ys ws1 ws2. outs = y # ys \<and> vs = ws1 @ ws2 \<and> copy_of h m d x y ws1
      \<and> copies_of h m d xs ys ws2"
  by (erule copies_of.cases) auto


lemma copy_of_unique:
  "copy_of h m d v out vs \<Longrightarrow> copy_of h m d v out' vs' \<Longrightarrow>
   first_visits S vs \<Longrightarrow> first_visits S vs' \<Longrightarrow> out = out' \<and> vs = vs'"
  "copies_of h m d xs outs vs \<Longrightarrow> copies_of h m d xs outs' vs' \<Longrightarrow>
   first_visits S vs \<Longrightarrow> first_visits S vs' \<Longrightarrow> outs = outs' \<and> vs = vs'"
proof (induction arbitrary: out' vs' S and outs' vs' S rule: copy_of_copies_of.inducts)
  case (cut d m h v)
  from copy_of_cut[OF cut(2,1)] show ?case by simp
next
  case (primitive d m v h)
  from copy_of_prim[OF primitive(3,1,2)] show ?case by simp
next
  case (marked d m h a)
  from marked(3) have "a \<in> S" by simp
  with copy_of_ref[OF marked(2,1)] marked(4) show ?case by auto
next
  case (stored_array d m h a items outs vs)
  from stored_array(6) have nin: "a \<notin> S" and f: "first_visits (insert a S) vs" by simp_all
  from copy_of_ref[OF stored_array(5,1)] stored_array(2,7) nin
  obtain outs2 vs2 where o: "out' = JArr outs2" and v: "vs' = (a, True) # vs2"
    and c: "copies_of h m (d + 1) items outs2 vs2"
    by auto
  from stored_array(7) v have g: "first_visits (insert a S) vs2" by simp
  from stored_array(4)[OF c f g] o v show ?case by simp
next
  case (stored_object d m h a kvs outs vs)
  from stored_object(6) have nin: "a \<notin> S" and f: "first_visits (insert a S) vs" by simp_all
  from copy_of_ref[OF stored_object(5,1)] stored_object(2,7) nin
  obtain outs2 vs2 where o: "out' = JObj (assigned (zip (map fst kvs) outs2))"
    and v: "vs' = (a, True) # vs2"
    and c: "copies_of h m (d + 1) (map snd kvs) outs2 vs2"
    by auto
  from stored_object(7) v have g: "first_visits (insert a S) vs2" by simp
  from stored_object(4)[OF c f g] o v show ?case by simp
next
  case (inline_array d m h items outs vs)
  from copy_of_arr[OF inline_array(4,1)]
  obtain outs2 where o: "out' = JArr outs2" and c: "copies_of h m (d + 1) items outs2 vs'"
    by auto
  from inline_array(3)[OF c inline_array(5,6)] o show ?case by simp
next
  case (inline_object d m h kvs outs vs)
  from copy_of_obj[OF inline_object(4,1)]
  obtain outs2 where o: "out' = JObj (assigned (zip (map fst kvs) outs2))"
    and c: "copies_of h m (d + 1) (map snd kvs) outs2 vs'"
    by auto
  from inline_object(3)[OF c inline_object(5,6)] o show ?case by simp
next
  case (no_member h m d)
  from copies_of_nil[OF no_member(1)] show ?case by simp
next
  case (member h m d x y vs xs ys ws)
  from copies_of_cons[OF member(5)]
  obtain y' ys' vs1 ws1 where o: "outs' = y' # ys'" and v: "vs' = vs1 @ ws1"
    and c1: "copy_of h m d x y' vs1" and c2: "copies_of h m d xs ys' ws1"
    by auto
  from member(6) have f1: "first_visits S vs" and f2: "first_visits (S \<union> fst ` set vs) ws"
    by (simp_all add: first_visits_append)
  from member(7) v have g1: "first_visits S vs1" and g2: "first_visits (S \<union> fst ` set vs1) ws1"
    by (simp_all add: first_visits_append)
  from member(3)[OF c1 f1 g1] have e1: "y = y'" "vs = vs1" by simp_all
  from member(4)[OF c2 f2] g2 e1 have "ys = ys'" "ws = ws1" by simp_all
  with e1 o v show ?case by simp
qed

text \<open>A call that does not return a value has run out of stack; it throws nothing else.\<close>

lemma sanitize_error_is_stack:
  "sanitizeRecursive n h v d m seen = Inl e \<Longrightarrow> e = RangeError"
  "sanitize_each n h xs d m seen = Inl e \<Longrightarrow> e = RangeError"
proof (induction n h v d m seen and n h xs d m seen arbitrary: e and e
    rule: sanitizeRecursive_sanitize_each.induct)
  case (1 h obj depth maxDepth seen)
  then show ?case by (simp add: sanitizeRecursive.simps)
next
  case (2 n h obj depth maxDepth seen)
  from 2(5) show ?case
    by (auto simp add: sanitizeRecursive.simps
          split: if_splits jv.splits hobj.splits sum.splits prod.splits
          dest: 2(1) 2(2) 2(3) 2(4))
next
  case (3 n h depth maxDepth seen)
  then show ?case by simp
next
  case (4 n h x xs depth maxDepth seen)
  from 4(3) show ?case
    by (auto split: sum.splits prod.splits dest: 4(1) 4(2))
qed



text \<open>
  With less stack the call throws: here the bound is 30, as in the handler, and the stack
  admits two calls.
\<close>

lemma sanitize_stack_exhausted:
  "sanitize 2 cyclic_store (JRef 0) 30 = Inl RangeError"
  by (simp add: sanitize_def sanitize_eval cyclic_store_def)

text \<open>
  A property named \<open>__proto__\<close> is not copied, but its value is visited: the object under
  \<open>b\<close> has been seen there.
\<close>

lemma sanitize_drops_proto:
  "sanitize (Suc (Suc (Suc n))) proto_store (JRef 0) 3 = Inr (JObj [(''b'', JStr ''[Circular Ref]'')])"
  by (simp add: sanitize_def sanitizeRecursive.simps assigned_def proto_store_def circular_def)

text \<open>
  When is a stored object replaced by the circular-reference marker?  Exactly when it is in
  \<open>seen\<close>; and \<open>seen\<close> only grows, since no object is ever taken out of it.
\<close>

lemma sanitize_ref_marker_iff:
  "depth \<le> maxDepth \<Longrightarrow>
   (\<exists>s. sanitizeRecursive (Suc n) h (JRef a) depth maxDepth seen = Inr (JStr circular, s))
     = (a \<in> seen)"
  by (cases "h a") (auto simp add: sanitizeRecursive.simps split: sum.splits prod.splits)

lemma sanitize_seen_grows:
  "sanitizeRecursive n h v d m seen = Inr (out, seen') \<Longrightarrow> seen \<subseteq> seen'"
  "sanitize_each n h xs d m seen = Inr (outs, seen') \<Longrightarrow> seen \<subseteq> seen'"
proof (induction n h v d m seen and n h xs d m seen arbitrary: out seen' and outs seen'
    rule: sanitizeRecursive_sanitize_each.induct)
  case (1 h obj depth maxDepth seen)
  then show ?case by (simp add: sanitizeRecursive.simps)
next
  case (2 n h obj depth maxDepth seen)
  show ?case
  proof (cases "depth > maxDepth")
    case True
    then show ?thesis using 2(5) by (simp add: sanitizeRecursive.simps)
  next
    case False
    show ?thesis
    proof (cases obj)
      case (JRef a)
      show ?thesis
      proof (cases "a \<in> seen")
        case True
        then show ?thesis using False JRef 2(5) by (simp add: sanitizeRecursive.simps)
      next
        case nin: False
        show ?thesis
        proof (cases "h a")
          case (HArr items)
          from 2(5) False JRef nin HArr obtain r
            where "sanitize_each n h items (depth + 1) maxDepth (insert a seen) = Inr (r, seen')"
            by (auto simp add: sanitizeRecursive.simps split: sum.splits prod.splits)
          from 2(3)[OF False JRef nin HArr this] show ?thesis by simp
        next
          case (HObj kvs)
          from 2(5) False JRef nin HObj obtain r
            where "sanitize_each n h (map snd kvs) (depth + 1) maxDepth (insert a seen) = Inr (r, seen')"
            by (auto simp add: sanitizeRecursive.simps split: sum.splits prod.splits)
          from 2(4)[OF False JRef nin HObj this] show ?thesis by simp
        qed
      qed
    next
      case (JArr items)
      from 2(5) False JArr obtain r
        where "sanitize_each n h items (depth + 1) maxDepth seen = Inr (r, seen')"
        by (auto simp add: sanitizeRecursive.simps split: sum.splits prod.splits)
      from 2(1)[OF False JArr this] show ?thesis .
    next
      case (JObj kvs)
      from 2(5) False JObj obtain r
        where "sanitize_each n h (map snd kvs) (depth + 1) maxDepth seen = Inr (r, seen')"
        by (auto simp add: sanitizeRecursive.simps split: sum.splits prod.splits)
      from 2(2)[OF False JObj this] show ?thesis .
    qed (use False 2(5) in \<open>simp_all add: sanitizeRecursive.simps\<close>)
  qed
next
  case (3 n h depth maxDepth seen)
  then show ?case by simp
next
  case (4 n h x xs depth maxDepth seen)
  from 4(3) obtain y s1 ys where a: "sanitizeRecursive n h x depth maxDepth seen = Inr (y, s1)"
    and b: "sanitize_each n h xs depth maxDepth s1 = Inr (ys, seen')"
    by (auto split: sum.splits prod.splits)
  from 4(1)[OF a] have "seen \<subseteq> s1" .
  moreover from 4(2)[OF a refl b] have "s1 \<subseteq> seen'" .
  ultimately show ?case by simp
qed

text \<open>
  Claim C3.  The claim has the marker only for an object met again on its own recursion
  path.  Here the array 0 holds the object 1 twice, side by side; 1 is not an ancestor of
  itself, yet its second occurrence comes out as the marker: the first visit put it into
  \<open>seen\<close> and nothing removes it when that visit returns.  (The call nests three calls
  and is given a stack that admits them.)
\<close>

theorem sanitize_marks_shared_sibling:
  "sanitize (Suc (Suc (Suc n))) shared_store (JRef 0) 3
     = Inr (JArr [JObj [(''x'', JNum 1)], JStr ''[Circular Ref]''])"
  by (simp add: sanitize_def sanitizeRecursive.simps assigned_def shared_store_def circular_def)

text \<open>
  The same in the tool's own output.  The normalizer puts the schema of a body parameter of
  the older dialect under \<open>parameters\<close> and again under \<open>requestBody\<close>; the two are one
  object, siblings in the result, and the request body's schema is returned as the marker.
\<close>

lemma read_api_marks_body_schema:
  "fst (read_swagger_api_try (example_world body_param_store) plain_args)
     = Inr (Payload body_param_payload [])"
  by (simp add: js_defs handler_defs example_world_def body_param_store_def plain_args_def
        sanitize_eval simplifyParameter_def simplifyResponse_def
        extractParameterSchema_def circular_def body_param_payload_def)

section \<open>Mock data: the example of a schema\<close>

text \<open>
  A schema with an example that JavaScript counts as true yields that example, whatever
  its declared type.
\<close>

lemma generateMockData_truthy_example:
  "truthy schema \<Longrightarrow> truthy (getp (store w) schema ''example'') \<Longrightarrow>
   generateMockData (Suc n) w schema = Inr (getp (store w) schema ''example'')"
  by simp

lemma generateMockData_object_example:
  "generateMockData (Suc n) (example_world object_example_store) (JRef 0) = Inr (JRef 1)"
  by (simp add: example_world_def object_example_store_def getp_def resolve_def)

text \<open>
  Claim C4.  The claim has the example returned whenever the field is present.  The source
  tests \<^verbatim>\<open>if (schema.example)\<close>, which is false of the examples \<open>false\<close>, \<open>0\<close>, the
  empty string and \<open>null\<close>: for the schema \<^verbatim>\<open>{type: "boolean", example: false}\<close> the
  example is passed over and the synthesized \<open>true\<close> is returned.
\<close>

theorem generateMockData_drops_false_example:
  "getp (store (example_world false_example_store)) (JRef 0) ''example'' = JBool False
   \<and> generateMockData (Suc n) (example_world false_example_store) (JRef 0) = Inr (JBool True)"
  by (simp add: example_world_def false_example_store_def getp_def resolve_def)

section \<open>The raw read: content type\<close>

text \<open>
  Claim C10, as the code has it.  For a response with a success status: without a
  Content-Type header the body is parsed as JSON; with a header that is empty or contains
  \<open>json\<close> (in any case) likewise; with a non-empty header that does not contain \<open>json\<close>
  the content-type error is raised, carrying the header and the first 100 units of the body.
\<close>

theorem fetchRawSwagger_content_type:
  assumes "fetch w url = Inr response" and "resp_ok response"
  shows "(resp_content_type response = None \<longrightarrow> fetchRawSwagger w url = resp_json response)
       \<and> (\<forall>ct. resp_content_type response = Some ct \<longrightarrow>
             (ct = [] \<or> str_includes (toLowerCase w ct) ''json'' \<longrightarrow>
                fetchRawSwagger w url = resp_json response)
           \<and> (ct \<noteq> [] \<and> \<not> str_includes (toLowerCase w ct) ''json'' \<longrightarrow>
                (\<forall>body. resp_text response = Inr body \<longrightarrow>
                   fetchRawSwagger w url = Inl (content_type_error ct body))))"
  using assms by (auto simp add: fetchRawSwagger_def)

lemma fetch_failing: "fetch (failing_world r) u = Inr r"
  by (simp add: failing_world_def example_world_def)

theorem fetchRawSwagger_content_type_witness:
  "fetch (failing_world html_response) ''u'' = Inr html_response
   \<and> resp_ok html_response
   \<and> resp_content_type html_response = Some ''Text/HTML''
   \<and> \<not> str_includes (toLowerCase (failing_world html_response) ''Text/HTML'') ''json''
   \<and> fetchRawSwagger (failing_world html_response) ''u''
        = Inl (content_type_error ''Text/HTML'' ''<html>'')
   \<and> fetch (failing_world no_header_response) ''u'' = Inr no_header_response
   \<and> resp_ok no_header_response
   \<and> resp_content_type no_header_response = None
   \<and> fetchRawSwagger (failing_world no_header_response) ''u'' = Inr (JRef 0)"
proof -
  have ok: "resp_ok html_response" "resp_ok no_header_response"
    by (simp_all add: html_response_def no_header_response_def)
  have ct: "resp_content_type html_response = Some ''Text/HTML''"
       "resp_content_type no_header_response = None"
       "resp_text html_response = Inr ''<html>''"
       "resp_json no_header_response = Inr (JRef 0)"
    by (simp_all add: html_response_def no_header_response_def)
  have nj: "\<not> str_includes (toLowerCase (failing_world html_response) ''Text/HTML'') ''json''"
    by (simp add: failing_world_def example_world_def lower_char_def)
  note t1 = fetchRawSwagger_content_type[OF fetch_failing[of html_response "''u''"] ok(1)]
  note t2 = fetchRawSwagger_content_type[OF fetch_failing[of no_header_response "''u''"] ok(2)]
  have a: "fetchRawSwagger (failing_world html_response) ''u''
        = Inl (content_type_error ''Text/HTML'' ''<html>'')"
    using t1 ct nj by auto
  have b: "fetchRawSwagger (failing_world no_header_response) ''u'' = Inr (JRef 0)"
    using t2 ct by auto
  show ?thesis using fetch_failing ok ct nj a b by simp
qed

text \<open>
  The claim as stated fails for a header that is declared but empty: its value does not
  contain \<open>json\<close>, yet \<^verbatim>\<open>contentType && ...\<close> is false of the empty string, no error is
  raised, and the body is parsed.
\<close>

theorem fetchRawSwagger_empty_content_type:
  "fetch (failing_world empty_content_type) ''u'' = Inr empty_content_type
   \<and> resp_ok empty_content_type
   \<and> resp_content_type empty_content_type = Some []
   \<and> \<not> str_includes (toLowerCase (failing_world empty_content_type) []) ''json''
   \<and> fetchRawSwagger (failing_world empty_content_type) ''u'' = Inr (JRef 0)"
  by (simp add: fetchRawSwagger_def failing_world_def example_world_def empty_content_type_def)

section \<open>Resolver and fallback\<close>

lemma both_failed_includes:
  "str_includes (both_failed m1 m2) m1" "str_includes (both_failed m1 m2) m2"
proof -
  show "str_includes (both_failed m1 m2) m1"
    unfolding both_failed_def by (rule str_includes_mid)
  have "both_failed m1 m2 = (both_failed_head @ m1 @ both_failed_mid) @ m2"
    unfolding both_failed_def by simp
  then show "str_includes (both_failed m1 m2) m2" by (simp only: str_includes_end)
qed

lemma failure_text_includes: "str_includes m x \<Longrightarrow> str_includes (failure_text m) x"
proof -
  assume "str_includes m x"
  then obtain a b where "m = a @ x @ b" using str_includes_iff by blast
  then have "failure_text m = (failure_head @ a) @ x @ (b @ failure_tail)"
    by (simp add: failure_text_def)
  then show ?thesis by (simp only: str_includes_mid)
qed

lemma getSwaggerApi_trace:
  "snd (getSwaggerApi w url fb) =
     (case dereference w url of Inr api \<Rightarrow> [Resolve url]
      | Inl e \<Rightarrow> if fb then [Resolve url, RawRead url] else [Resolve url])"
  by (simp add: getSwaggerApi_def split: sum.splits)

lemma safeResult_trace:
  "safeResult w a api fp mc = (r, tr) \<Longrightarrow> filter is_raw_read tr = []"
  by (auto simp add: safeResult_def split: sum.splits if_splits)

lemma typesSuffix_trace: "filter is_raw_read (snd (typesSuffix w api)) = []"
  by (simp add: typesSuffix_def Let_def split: sum.splits)

lemma read_try_raw_reads:
  "parse_args w raw = Inr a \<Longrightarrow>
   filter is_raw_read (snd (read_swagger_api_try w raw))
     = filter is_raw_read (snd (getSwaggerApi w (arg_url a) (arg_use_fallback a)))"
  using typesSuffix_trace
  by (auto simp add: read_swagger_api_try_def read_swagger_api_run_def split: sum.splits prod.splits
        dest: safeResult_trace)

lemma read_api_trace: "snd (read_swagger_api w raw) = snd (read_swagger_api_try w raw)"
  by (simp add: read_swagger_api_def split: prod.splits sum.splits outcome.splits)

lemma read_try_resolver_failure:
  "parse_args w raw = Inr a \<Longrightarrow> fst (getSwaggerApi w (arg_url a) (arg_use_fallback a)) = Inl e \<Longrightarrow>
   fst (read_swagger_api_try w raw) = Inl e"
  by (auto simp add: read_swagger_api_try_def read_swagger_api_run_def split: sum.splits prod.splits)

lemma read_api_failure:
  "fst (read_swagger_api_try w raw) = Inl e \<Longrightarrow>
   fst (read_swagger_api w raw) = \<lparr>result_text = failure_text (message w e), result_isError = True\<rparr>"
  by (auto simp add: read_swagger_api_def split: sum.splits prod.splits outcome.splits)

text \<open>
  Claim C8.  In an invocation whose arguments parse and whose reference resolution fails:
  with \<open>use_fallback\<close> the raw read is entered exactly once, and if it fails too, the
  error of \<open>getSwaggerApi\<close> is one \<open>Error\<close> whose message contains the resolver's and the
  fallback's messages, and the tool result is the failure text around that message; without
  \<open>use_fallback\<close> the resolver's error is returned as it is, the raw read is never entered,
  and the tool result is the failure text around the resolver's message.
\<close>

theorem fallback_once_and_both_causes:
  assumes "parse_args w raw = Inr a" and "dereference w (arg_url a) = Inl parseError"
  shows "(arg_use_fallback a \<longrightarrow>
            length (filter is_raw_read (snd (read_swagger_api w raw))) = 1
          \<and> (\<forall>fallbackError. fetchRawSwagger w (arg_url a) = Inl fallbackError \<longrightarrow>
                fst (getSwaggerApi w (arg_url a) True)
                  = Inl (Error (both_failed (message w parseError) (message w fallbackError)))
              \<and> str_includes (both_failed (message w parseError) (message w fallbackError))
                    (message w parseError)
              \<and> str_includes (both_failed (message w parseError) (message w fallbackError))
                    (message w fallbackError)
              \<and> fst (read_swagger_api w raw)
                  = \<lparr>result_text = failure_text
                        (both_failed (message w parseError) (message w fallbackError)),
                     result_isError = True\<rparr>))
       \<and> (\<not> arg_use_fallback a \<longrightarrow>
            fst (getSwaggerApi w (arg_url a) False) = Inl parseError
          \<and> filter is_raw_read (snd (read_swagger_api w raw)) = []
          \<and> fst (read_swagger_api w raw)
               = \<lparr>result_text = failure_text (message w parseError), result_isError = True\<rparr>)"
proof (intro conjI impI allI)
  assume fb: "arg_use_fallback a"
  show "length (filter is_raw_read (snd (read_swagger_api w raw))) = 1"
    using assms fb by (simp add: read_api_trace read_try_raw_reads getSwaggerApi_trace)
next
  fix fallbackError
  assume fb: "arg_use_fallback a" and ff: "fetchRawSwagger w (arg_url a) = Inl fallbackError"
  show g: "fst (getSwaggerApi w (arg_url a) True)
         = Inl (Error (both_failed (message w parseError) (message w fallbackError)))"
    using assms ff by (simp add: getSwaggerApi_def)
  show "str_includes (both_failed (message w parseError) (message w fallbackError)) (message w parseError)"
    by (rule both_failed_includes)
  show "str_includes (both_failed (message w parseError) (message w fallbackError)) (message w fallbackError)"
    by (rule both_failed_includes)
  from g fb have "fst (read_swagger_api_try w raw)
      = Inl (Error (both_failed (message w parseError) (message w fallbackError)))"
    using read_try_resolver_failure[OF assms(1)] by simp
  then show "fst (read_swagger_api w raw)
                  = \<lparr>result_text = failure_text
                        (both_failed (message w parseError) (message w fallbackError)),
                     result_isError = True\<rparr>"
    using read_api_failure by (simp add: message_def)
next
  assume nfb: "\<not> arg_use_fallback a"
  show g: "fst (getSwaggerApi w (arg_url a) False) = Inl parseError"
    using assms by (simp add: getSwaggerApi_def)
  show "filter is_raw_read (snd (read_swagger_api w raw)) = []"
    using assms nfb by (simp add: read_api_trace read_try_raw_reads getSwaggerApi_trace)
  from g nfb have "fst (read_swagger_api_try w raw) = Inl parseError"
    using read_try_resolver_failure[OF assms(1)] by simp
  then show "fst (read_swagger_api w raw)
               = \<lparr>result_text = failure_text (message w parseError), result_isError = True\<rparr>"
    using read_api_failure by simp
qed

lemma parse_plain: "parse_args (failing_world r) plain_args = Inr plain_parsed"
  by (simp add: parse_args_def failing_world_def example_world_def plain_args_def plain_parsed_def)

lemma parse_plain_nofb:
  "parse_args (failing_world r) (plain_args\<lparr>raw_use_fallback := Some False\<rparr>)
     = Inr (plain_parsed\<lparr>arg_use_fallback := False\<rparr>)"
  by (simp add: parse_args_def failing_world_def example_world_def plain_args_def plain_parsed_def)

lemma deref_failing: "dereference (failing_world r) u = Inl (Error ''bad ref'')"
  by (simp add: failing_world_def example_world_def)

lemma fetch_html:
  "fetchRawSwagger (failing_world html_response) ''http://h/doc''
     = Inl (content_type_error ''Text/HTML'' ''<html>'')"
  by (simp add: fetchRawSwagger_def failing_world_def example_world_def html_response_def
        lower_char_def)

theorem fallback_once_and_both_causes_witness:
  "parse_args (failing_world html_response) plain_args = Inr plain_parsed
   \<and> dereference (failing_world html_response) (arg_url plain_parsed) = Inl (Error ''bad ref'')
   \<and> arg_use_fallback plain_parsed
   \<and> length (filter is_raw_read (snd (read_swagger_api (failing_world html_response) plain_args))) = 1
   \<and> fetchRawSwagger (failing_world html_response) (arg_url plain_parsed)
        = Inl (content_type_error ''Text/HTML'' ''<html>'')
   \<and> result_isError (fst (read_swagger_api (failing_world html_response) plain_args))
   \<and> str_includes (result_text (fst (read_swagger_api (failing_world html_response) plain_args)))
        ''bad ref''
   \<and> str_includes (result_text (fst (read_swagger_api (failing_world html_response) plain_args)))
        (message (failing_world html_response) (content_type_error ''Text/HTML'' ''<html>''))
   \<and> parse_args (failing_world html_response) (plain_args\<lparr>raw_use_fallback := Some False\<rparr>)
        = Inr (plain_parsed\<lparr>arg_use_fallback := False\<rparr>)
   \<and> fst (read_swagger_api (failing_world html_response)
             (plain_args\<lparr>raw_use_fallback := Some False\<rparr>))
        = \<lparr>result_text = failure_text ''bad ref'', result_isError = True\<rparr>
   \<and> filter is_raw_read (snd (read_swagger_api (failing_world html_response)
             (plain_args\<lparr>raw_use_fallback := Some False\<rparr>))) = []"
proof -
  let ?w = "failing_world html_response"
  have u: "arg_url plain_parsed = ''http://h/doc''" "arg_use_fallback plain_parsed"
    by (simp_all add: plain_parsed_def)
  have d: "dereference ?w (arg_url plain_parsed) = Inl (Error ''bad ref'')"
    by (rule deref_failing)
  have f: "fetchRawSwagger ?w (arg_url plain_parsed) = Inl (content_type_error ''Text/HTML'' ''<html>'')"
    using fetch_html u by simp
  note t = fallback_once_and_both_causes[OF parse_plain d]
  have n: "length (filter is_raw_read (snd (read_swagger_api ?w plain_args))) = 1"
    using t u by blast
  have r: "fst (read_swagger_api ?w plain_args)
      = \<lparr>result_text = failure_text (both_failed (message ?w (Error ''bad ref''))
            (message ?w (content_type_error ''Text/HTML'' ''<html>''))), result_isError = True\<rparr>"
    using t u f by blast
  have i1: "str_includes (result_text (fst (read_swagger_api ?w plain_args))) ''bad ref''"
    unfolding r using both_failed_includes(1)[of "''bad ref''"] 
    by (simp add: failure_text_includes message_def)
  have i2: "str_includes (result_text (fst (read_swagger_api ?w plain_args)))
        (message ?w (content_type_error ''Text/HTML'' ''<html>''))"
    unfolding r using both_failed_includes(2) by (simp add: failure_text_includes)
  have d2: "dereference ?w (arg_url (plain_parsed\<lparr>arg_use_fallback := False\<rparr>)) = Inl (Error ''bad ref'')"
    by (rule deref_failing)
  note t2 = fallback_once_and_both_causes[OF parse_plain_nofb d2]
  have r2: "fst (read_swagger_api ?w (plain_args\<lparr>raw_use_fallback := Some False\<rparr>))
        = \<lparr>result_text = failure_text ''bad ref'', result_isError = True\<rparr>"
    using t2 by (simp add: message_def)
  have n2: "filter is_raw_read (snd (read_swagger_api ?w (plain_args\<lparr>raw_use_fallback := Some False\<rparr>))) = []"
    using t2 by simp
  show ?thesis using parse_plain d u(2) n f r i1 i2 parse_plain_nofb r2 n2 by simp
qed

section \<open>The normalizer: response descriptors\<close>

lemma map_err_concat:
  assumes "map_err f xs = Inr ys"
    and "\<And>x y. x \<in> set xs \<Longrightarrow> f x = Inr y \<Longrightarrow> F y = map D (G x)"
  shows "concat (map F ys) = map D (concat (map G xs))"
  using assms
proof (induction xs arbitrary: ys)
  case Nil
  then show ?case by simp
next
  case (Cons x xs)
  from Cons.prems(1) obtain y ys' where y: "f x = Inr y" and ys': "map_err f xs = Inr ys'"
    and ys: "ys = y # ys'"
    by (auto split: sum.splits)
  have "F y = map D (G x)" using Cons.prems(2)[of x y] y by simp
  moreover have "concat (map F ys') = map D (concat (map G xs))"
    using Cons.IH[OF ys'] Cons.prems(2) by simp
  ultimately show ?case using ys by simp
qed

lemma map_err_map:
  assumes "map_err f xs = Inr ys"
    and "\<And>x y. x \<in> set xs \<Longrightarrow> f x = Inr y \<Longrightarrow> y = g x"
  shows "ys = map g xs"
  using assms
proof (induction xs arbitrary: ys)
  case Nil
  then show ?case by simp
next
  case (Cons x xs)
  from Cons.prems(1) obtain y ys' where y: "f x = Inr y" and ys': "map_err f xs = Inr ys'"
    and ys: "ys = y # ys'"
    by (auto split: sum.splits)
  have "y = g x" using Cons.prems(2)[of x y] y by simp
  moreover have "ys' = map g xs" using Cons.IH[OF ys'] Cons.prems(2) by simp
  ultimately show ?case using ys by simp
qed

lemma simplifyResponse_Inr: "simplifyResponse h r = Inr d \<Longrightarrow> d = descriptor_of h r"
  by (auto simp add: simplifyResponse_def descriptor_of_def split: if_splits)

lemma entries_JObj: "entries h (JObj kvs) = kvs"
  by (simp add: entries_def resolve_def)

lemma getp_JObj: "getp h (JObj kvs) k = lookup kvs k"
  by (simp add: getp_def resolve_def)

lemma assigned_Cons:
  "assigned (kv # kvs) = (if fst kv \<noteq> ''__proto__'' then kv # assigned kvs else assigned kvs)"
  by (simp add: assigned_def)

lemma assigned_map_values:
  "assigned (map (\<lambda>(k, v). (k, g v)) kvs) = map (\<lambda>(k, v). (k, g v)) (assigned kvs)"
  by (induction kvs) (auto simp add: assigned_def)

lemma map_err_concat_assigned:
  assumes "map_err f xs = Inr ys"
    and "\<And>x y. x \<in> set xs \<Longrightarrow> f x = Inr y \<Longrightarrow> fst y = fst x \<and> F y = map D (G x)"
  shows "concat (map F (assigned ys)) = map D (concat (map G (assigned xs)))"
  using assms
proof (induction xs arbitrary: ys)
  case Nil
  then show ?case by (simp add: assigned_def)
next
  case (Cons x xs)
  from Cons.prems(1) obtain y ys' where y: "f x = Inr y" and ys': "map_err f xs = Inr ys'"
    and ys: "ys = y # ys'"
    by (auto split: sum.splits)
  have k: "fst y = fst x" and e: "F y = map D (G x)" using Cons.prems(2)[of x y] y by simp_all
  have "concat (map F (assigned ys')) = map D (concat (map G (assigned xs)))"
    using Cons.IH[OF ys'] Cons.prems(2) by simp
  then show ?case using ys k e by (simp add: assigned_Cons)
qed

lemma simplifyResponses_Inr:
  assumes "simplifyResponses h responses = Inr acc"
  shows "map snd (entries h acc)
           = map (descriptor_of h) (map snd (assigned (entries h (js_or responses (JObj [])))))"
proof -
  let ?f = "\<lambda>(code, resp). case simplifyResponse h resp of
                                Inl e \<Rightarrow> Inl e
                              | Inr d \<Rightarrow> Inr (code, d)"
  from assms obtain ys where ys: "map_err ?f (entries h (js_or responses (JObj []))) = Inr ys"
    and acc: "acc = JObj (assigned ys)"
    by (auto simp add: simplifyResponses_def split: sum.splits)
  have "ys = map (\<lambda>(code, resp). (code, descriptor_of h resp)) (entries h (js_or responses (JObj [])))"
    using ys by (rule map_err_map) (auto split: sum.splits dest: simplifyResponse_Inr)
  then show ?thesis
    by (simp add: acc entries_JObj assigned_map_values) (simp add: case_prod_unfold comp_def)
qed

lemma simplifyOperation_responses:
  assumes "simplifyOperation h op = Inr op'"
  shows "map snd (entries h (getp h op' ''responses''))
           = map (descriptor_of h)
               (map snd (assigned (entries h (js_or (getp h op ''responses'') (JObj [])))))"
proof -
  from assms obtain responses where r: "simplifyResponses h (getp h op ''responses'') = Inr responses"
    and g: "getp h op' ''responses'' = responses"
    by (auto simp add: simplifyOperation_def getp_JObj split: sum.splits)
  show ?thesis unfolding g using r by (rule simplifyResponses_Inr)
qed

lemma simplifyPathItem_responses:
  assumes "simplifyPathItem h pathValue = Inr item"
  shows "concat (map (\<lambda>op. map snd (entries h (getp h op ''responses''))) (map snd (entries h item)))
           = map (descriptor_of h)
               (concat (map (\<lambda>op. map snd (assigned (entries h (js_or (getp h op ''responses'')
                                                                    (JObj [])))))
                          (kept_operations h pathValue)))"
proof -
  let ?xs = "filter (\<lambda>(method, operation).
                        method \<in> HTTP_METHODS \<and> typeof_object operation \<and> operation \<noteq> JNull)
                (entries h pathValue)"
  let ?f = "\<lambda>(method, operation). case simplifyOperation h operation of
                                       Inl e \<Rightarrow> Inl e
                                     | Inr op \<Rightarrow> Inr (method, op)"
  from assms obtain ys where ys: "map_err ?f ?xs = Inr ys" and item: "item = JObj ys"
    by (auto simp add: simplifyPathItem_def split: sum.splits)
  have "concat (map (\<lambda>y. map snd (entries h (getp h (snd y) ''responses''))) ys)
      = map (descriptor_of h)
          (concat (map (\<lambda>x. map snd (assigned (entries h (js_or (getp h (snd x) ''responses'')
                                                              (JObj []))))) ?xs))"
  proof (rule map_err_concat[OF ys])
    fix x y
    assume fy: "?f x = Inr y"
    obtain m operation where x: "x = (m, operation)" by (cases x)
    from fy x obtain op' where so: "simplifyOperation h operation = Inr op'" and y: "y = (m, op')"
      by (auto split: sum.splits)
    from simplifyOperation_responses[OF so]
    show "map snd (entries h (getp h (snd y) ''responses''))
        = map (descriptor_of h)
            (map snd (assigned (entries h (js_or (getp h (snd x) ''responses'') (JObj [])))))"
      by (simp only: x y snd_conv)
  qed
  then show ?thesis by (simp add: item entries_JObj kept_operations_def comp_def)
qed

text \<open>
  Claim C5, as the code has it.  When \<open>simplifyPaths\<close> returns, the response descriptors
  of the projection are, in order, the descriptors of the responses of the document: each
  is a record of \<open>description\<close> (the response's, or the empty string), \<open>content\<close> and
  \<open>schema\<close>, the last two copied from the response as they are, so each is populated
  exactly when the response has it.
\<close>

theorem responses_copied:
  assumes "simplifyPaths h paths = Inr projection"
  shows "response_descriptors h projection = map (descriptor_of h) (input_responses h paths)
       \<and> getp h (descriptor_of h r) ''content'' = getp h r ''content''
       \<and> getp h (descriptor_of h r) ''schema'' = getp h r ''schema''
       \<and> getp h (descriptor_of h r) ''description'' = js_or (getp h r ''description'') (JStr [])"
proof (intro conjI)
  let ?xs = "filter (\<lambda>(pathKey, pathValue). truthy pathValue) (entries h paths)"
  let ?f = "\<lambda>(pathKey, pathValue). case simplifyPathItem h pathValue of
                                        Inl e \<Rightarrow> Inl e
                                      | Inr item \<Rightarrow> Inr (pathKey, item)"
  from assms obtain ys where ys: "map_err ?f ?xs = Inr ys" and p: "projection = JObj (assigned ys)"
    by (auto simp add: simplifyPaths_def split: sum.splits)
  have "concat (map (\<lambda>y. concat (map (\<lambda>op. map snd (entries h (getp h op ''responses'')))
                              (map snd (entries h (snd y))))) (assigned ys))
      = map (descriptor_of h)
          (concat (map (\<lambda>x. concat (map (\<lambda>op. map snd (assigned (entries h
                                               (js_or (getp h op ''responses'') (JObj [])))))
                              (kept_operations h (snd x)))) (assigned ?xs)))"
  proof (rule map_err_concat_assigned[OF ys], rule conjI)
    fix x y
    assume fy: "?f x = Inr y"
    obtain k pathValue where x: "x = (k, pathValue)" by (cases x)
    from fy x obtain item where sp: "simplifyPathItem h pathValue = Inr item" and y: "y = (k, item)"
      by (auto split: sum.splits)
    show "fst y = fst x" by (simp add: x y)
    from simplifyPathItem_responses[OF sp]
    show "concat (map (\<lambda>op. map snd (entries h (getp h op ''responses'')))
                              (map snd (entries h (snd y))))
        = map (descriptor_of h)
            (concat (map (\<lambda>op. map snd (assigned (entries h
                                    (js_or (getp h op ''responses'') (JObj [])))))
                              (kept_operations h (snd x))))"
      by (simp only: x y snd_conv)
  qed
  then show "response_descriptors h projection = map (descriptor_of h) (input_responses h paths)"
    by (simp add: p entries_JObj response_descriptors_def input_responses_def comp_def)
  show "getp h (descriptor_of h r) ''content'' = getp h r ''content''"
    by (simp add: descriptor_of_def getp_JObj)
  show "getp h (descriptor_of h r) ''schema'' = getp h r ''schema''"
    by (simp add: descriptor_of_def getp_JObj)
  show "getp h (descriptor_of h r) ''description'' = js_or (getp h r ''description'') (JStr [])"
    by (simp add: descriptor_of_def getp_JObj)
qed

lemmas normalizer_defs = simplifyPaths_def
  simplifyPathItem_def simplifyOperation_def simplifyParameters_def simplifyResponses_def
  simplifyRequestBody_def simplifyResponse_def

lemma no_content_simplified:
  "simplifyPaths no_content_store (JRef 1) = Inr no_content_projection"
  by (simp add: js_defs normalizer_defs assigned_def no_content_store_def
        no_content_projection_def)

theorem responses_copied_witness:
  "simplifyPaths no_content_store (JRef 1) = Inr no_content_projection
   \<and> input_responses no_content_store (JRef 1) = [JRef 5, JRef 6]
   \<and> response_descriptors no_content_store no_content_projection
       = [JObj [(''description'', JStr ''pong''), (''content'', JUndef), (''schema'', JRef 7)],
          JObj [(''description'', JStr ''No Content''), (''content'', JUndef),
                (''schema'', JUndef)]]"
proof -
  have i: "input_responses no_content_store (JRef 1) = [JRef 5, JRef 6]"
    by (simp add: input_responses_def kept_operations_def js_defs assigned_def
          no_content_store_def)
  have d: "map (descriptor_of no_content_store) [JRef 5, JRef 6]
       = [JObj [(''description'', JStr ''pong''), (''content'', JUndef), (''schema'', JRef 7)],
          JObj [(''description'', JStr ''No Content''), (''content'', JUndef),
                (''schema'', JUndef)]]"
    by (simp add: descriptor_of_def js_defs no_content_store_def)
  note t = responses_copied[OF no_content_simplified, THEN conjunct1]
  show ?thesis using no_content_simplified i t d by simp
qed

text \<open>
  The claim as stated fails for a response that has neither field, such as a 204 with a
  description only: its descriptor has \<open>content\<close> and \<open>schema\<close> both undefined.
\<close>

theorem response_without_content_or_schema:
  "simplifyPaths no_content_store (JRef 1) = Inr no_content_projection
   \<and> response_descriptors no_content_store no_content_projection
       = [JObj [(''description'', JStr ''pong''), (''content'', JUndef), (''schema'', JRef 7)],
          JObj [(''description'', JStr ''No Content''), (''content'', JUndef),
                (''schema'', JUndef)]]
   \<and> \<not> exactly_one_populated no_content_store
         (JObj [(''description'', JStr ''No Content''), (''content'', JUndef),
                (''schema'', JUndef)])"
  by (simp add: js_defs normalizer_defs assigned_def no_content_store_def
        no_content_projection_def response_descriptors_def exactly_one_populated_def
        populated_def)

section \<open>The filter\<close>

lemma str_includes_empty: "str_includes s []"
  by (cases s) simp_all

lemma field_includes_typed:
  "text_or_absent (getp (store w) op key) \<Longrightarrow>
   field_includes w op key (toLowerCase w k) = Inr (text_contains w op key k)"
  by (cases "getp (store w) op key")
     (simp_all add: field_includes_def text_contains_def contains_ci_def)

lemma inMeta_typed:
  "list_all (well_typed_operation (store w)) ops \<Longrightarrow>
   inMeta w ops (toLowerCase w k)
     = Inr (list_ex (\<lambda>op. text_contains w op ''summary'' k \<or> text_contains w op ''description'' k) ops)"
proof (induction ops)
  case Nil
  show ?case by simp
next
  case (Cons op ops)
  then have s: "field_includes w op ''summary'' (toLowerCase w k)
                  = Inr (text_contains w op ''summary'' k)"
    and d: "field_includes w op ''description'' (toLowerCase w k)
                  = Inr (text_contains w op ''description'' k)"
    by (simp_all add: well_typed_operation_def field_includes_typed)
  from Cons have ih: "inMeta w ops (toLowerCase w k)
     = Inr (list_ex (\<lambda>op. text_contains w op ''summary'' k \<or> text_contains w op ''description'' k) ops)"
    by simp
  show ?case by (simp add: s d ih split: bool.splits)
qed

lemma falsy_not_array: "\<not> truthy v \<Longrightarrow> (case resolve h v of JArr xs \<Rightarrow> P xs | _ \<Rightarrow> False) = False"
  by (cases v) (simp_all add: resolve_def)

lemma tags_include_typed:
  "well_typed_operation h op \<Longrightarrow> tags_include h op t = Inr (lists_tag h op t)"
proof (cases "truthy (getp h op ''tags'')")
  case True
  assume "well_typed_operation h op"
  with True have "isArray h (getp h op ''tags'')" by (simp add: well_typed_operation_def)
  then obtain xs where "resolve h (getp h op ''tags'') = JArr xs"
    by (auto simp add: isArray_def split: jv.splits)
  with True show ?thesis by (simp add: tags_include_def lists_tag_def)
next
  case False
  then show ?thesis by (simp add: tags_include_def lists_tag_def falsy_not_array)
qed

lemma tagLoop_typed:
  "list_all (well_typed_operation h) ops \<Longrightarrow>
   tagLoop h ops t = Inr (list_ex (\<lambda>op. lists_tag h op t) ops)"
  by (induction ops) (simp_all add: tags_include_typed split: bool.splits)

lemma patternMatch_typed:
  "toLowerCase w [] = [] \<Longrightarrow>
   list_all (well_typed_operation (store w)) (getOperations (store w) pathValue) \<Longrightarrow>
   patternMatch w keyword pathKey pathValue = Inr (keyword_passes w keyword (pathKey, pathValue))"
  by (cases keyword)
     (simp_all add: patternMatch_def keyword_passes_def inMeta_typed contains_ci_def
        str_includes_empty)

lemma tagMatch_typed:
  "list_all (well_typed_operation h) (getOperations h pathValue) \<Longrightarrow>
   tagMatch h tag pathValue
     = Inr (case tag of None \<Rightarrow> True
            | Some t \<Rightarrow> t = [] \<or> list_ex (\<lambda>op. lists_tag h op t) (getOperations h pathValue))"
  by (cases tag) (simp_all add: tagMatch_def tagLoop_typed)

lemma filterPaths_typed:
  "toLowerCase w [] = [] \<Longrightarrow> well_typed_paths (store w) es \<Longrightarrow>
   filterPaths w keyword tag es (fp, mc)
     = Inr (fp @ filter (retained w keyword tag) es,
            mc + length (filter (retained w keyword tag) es))"
proof (induction es arbitrary: fp mc)
  case Nil
  show ?case by simp
next
  case (Cons e es)
  obtain pathKey pathValue where e: "e = (pathKey, pathValue)" by (cases e)
  from Cons.prems
  have wt: "list_all (well_typed_operation (store w)) (getOperations (store w) pathValue)"
    and key: "assigned [(pathKey, pathValue)] = [(pathKey, pathValue)]"
    and rest: "well_typed_paths (store w) es"
    by (simp_all add: well_typed_paths_def assigned_def e)
  note ih = Cons.IH[OF Cons.prems(1) rest]
  note pm = patternMatch_typed[OF Cons.prems(1) wt]
  let ?tp = "case tag of None \<Rightarrow> True
            | Some t \<Rightarrow> t = [] \<or> list_ex (\<lambda>op. lists_tag (store w) op t)
                                     (getOperations (store w) pathValue)"
  have ret: "retained w keyword tag (pathKey, pathValue)
      = (truthy pathValue \<and> keyword_passes w keyword (pathKey, pathValue) \<and> ?tp)"
    by (simp add: retained_def cong: option.case_cong)
  show ?case
  proof (cases "truthy pathValue")
    case False
    then show ?thesis by (simp add: e ih ret)
  next
    case True
    show ?thesis
    proof (cases "keyword_passes w keyword (pathKey, pathValue)")
      case False
      then show ?thesis using True
        by (simp add: e ih ret pm)
    next
      case kp: True
      show ?thesis
      proof (cases ?tp)
        case True
        then show ?thesis using \<open>truthy pathValue\<close> kp
          by (simp add: e ih ret pm key tagMatch_typed[OF wt])
      next
        case False
        then show ?thesis using \<open>truthy pathValue\<close> kp
          by (simp add: e ih ret pm tagMatch_typed[OF wt])
      qed
    qed
  qed
qed

text \<open>
  Claim C7, as the code has it.  On a document typed as the format says, and with an engine
  that lowers the empty string to itself, the loop returns exactly the entries that satisfy
  \<open>retained\<close>, in order, and \<open>matchCount\<close> is their number (of path entries, not of
  operations); with both filters absent these are all entries whose path item is truthy.
\<close>

theorem filter_retains:
  assumes "well_typed_paths (store w) es" and "toLowerCase w [] = []"
  shows "filterPaths w keyword tag es ([], 0)
           = Inr (filter (retained w keyword tag) es,
                  length (filter (retained w keyword tag) es))
       \<and> filter (retained w None None) es = filter (\<lambda>entry. truthy (snd entry)) es"
proof
  show "filterPaths w keyword tag es ([], 0)
           = Inr (filter (retained w keyword tag) es,
                  length (filter (retained w keyword tag) es))"
    using filterPaths_typed[OF assms(2) assms(1), of keyword tag "[]" 0] by simp
  show "filter (retained w None None) es = filter (\<lambda>entry. truthy (snd entry)) es"
    by (rule filter_cong) (simp_all add: retained_def keyword_passes_def)
qed

lemmas filter_defs = retained_def keyword_passes_def contains_ci_def text_contains_def
  lists_tag_def lower_char_def

lemma tagged_store: "store (example_world tagged_store) = tagged_store"
  by (simp add: example_world_def)

lemma tagged_lower: "toLowerCase (example_world tagged_store) s = map lower_char s"
  by (simp add: example_world_def)

lemma tagged_typed:
  "well_typed_paths (store (example_world tagged_store)) (entries tagged_store (JRef 1))"
  by (simp add: well_typed_paths_def well_typed_operation_def js_defs tagged_store_def
        tagged_store)

theorem filter_retains_witness:
  "well_typed_paths (store (example_world tagged_store)) (entries tagged_store (JRef 1))
   \<and> toLowerCase (example_world tagged_store) [] = []
   \<and> filterPaths (example_world tagged_store) (Some ''USER'') None
        (entries tagged_store (JRef 1)) ([], 0)
       = Inr ([(''/users/{id}'', JRef 2)], 1)
   \<and> filterPaths (example_world tagged_store) (Some ''list'') (Some ''Orders'')
        (entries tagged_store (JRef 1)) ([], 0)
       = Inr ([(''/orders'', JRef 3)], 1)
   \<and> filterPaths (example_world tagged_store) (Some ''order'') (Some ''Users'')
        (entries tagged_store (JRef 1)) ([], 0)
       = Inr ([], 0)
   \<and> filterPaths (example_world tagged_store) None None (entries tagged_store (JRef 1)) ([], 0)
       = Inr ([(''/users/{id}'', JRef 2), (''/orders'', JRef 3)], 2)"
proof -
  let ?w = "example_world tagged_store"
  have es: "entries tagged_store (JRef 1) = [(''/users/{id}'', JRef 2), (''/orders'', JRef 3)]"
    by (simp add: js_defs tagged_store_def)
  have lo: "toLowerCase ?w [] = []"
    by (simp add: tagged_lower)
  have r1: "filter (retained ?w (Some ''USER'') None) (entries tagged_store (JRef 1))
      = [(''/users/{id}'', JRef 2)]"
    unfolding es by (simp add: filter_defs js_defs tagged_store tagged_lower tagged_store_def)
  have r2: "filter (retained ?w (Some ''list'') (Some ''Orders'')) (entries tagged_store (JRef 1))
      = [(''/orders'', JRef 3)]"
    unfolding es by (simp add: filter_defs js_defs tagged_store tagged_lower tagged_store_def)
  have r3: "filter (retained ?w (Some ''order'') (Some ''Users'')) (entries tagged_store (JRef 1))
      = []"
    unfolding es by (simp add: filter_defs js_defs tagged_store tagged_lower tagged_store_def)
  have r4: "filter (retained ?w None None) (entries tagged_store (JRef 1))
      = [(''/users/{id}'', JRef 2), (''/orders'', JRef 3)]"
    unfolding es by (simp add: filter_defs js_defs tagged_store tagged_lower tagged_store_def)
  note t = filter_retains[OF tagged_typed lo, THEN conjunct1]
  have a1: "filterPaths ?w (Some ''USER'') None (entries tagged_store (JRef 1)) ([], 0)
       = Inr ([(''/users/{id}'', JRef 2)], 1)"
    using t[of "Some ''USER''" None] by (simp only: r1) simp
  have a2: "filterPaths ?w (Some ''list'') (Some ''Orders'') (entries tagged_store (JRef 1)) ([], 0)
       = Inr ([(''/orders'', JRef 3)], 1)"
    using t[of "Some ''list''" "Some ''Orders''"] by (simp only: r2) simp
  have a3: "filterPaths ?w (Some ''order'') (Some ''Users'') (entries tagged_store (JRef 1)) ([], 0)
       = Inr ([], 0)"
    using t[of "Some ''order''" "Some ''Users''"] by (simp only: r3) simp
  have a4: "filterPaths ?w None None (entries tagged_store (JRef 1)) ([], 0)
       = Inr ([(''/users/{id}'', JRef 2), (''/orders'', JRef 3)], 2)"
    using t[of None None] by (simp only: r4) simp
  show ?thesis using tagged_typed lo a1 a2 a3 a4 by simp
qed

text \<open>
  The claim as stated fails for the tag filter \<open>""\<close>: it is present, no operation lists
  it, and yet every entry is retained, because \<^verbatim>\<open>if (tag)\<close> treats the empty string as
  no filter.
\<close>

theorem filter_empty_tag_retains_all:
  "filterPaths (example_world tagged_store) None (Some []) (entries tagged_store (JRef 1)) ([], 0)
     = Inr ([(''/users/{id}'', JRef 2), (''/orders'', JRef 3)], 2)
   \<and> getOperations tagged_store (JRef 2) = [JRef 4]
   \<and> \<not> lists_tag tagged_store (JRef 4) []
   \<and> \<not> retained_as_claimed (example_world tagged_store) None (Some []) (''/users/{id}'', JRef 2)"
  by (simp add: js_defs tagged_store tagged_store_def tagMatch_def patternMatch_def
        retained_as_claimed_def keyword_passes_def lists_tag_def assigned_def)

text \<open>
  A path item that is not truthy is skipped, whatever the filters; the keyword is compared
  as the engine lowers it, accented letters included; and a path named \<open>__proto__\<close> is
  counted but not kept, since the assignment to \<open>filteredPaths\<close> creates no property.
\<close>

lemma filter_skips_falsy:
  "filterPaths w None None [(''/a'', JNum 0), (''/b'', JStr []), (''/c'', JBool False),
                            (''/d'', JNull)] ([], 0)
     = Inr ([], 0)"
  by simp

lemma filter_lowers_every_letter:
  "filterPaths ((example_world h)\<lparr>toLowerCase := lower_latin\<rparr>)
      (Some (''caf'' @ [CHR 0xC3, CHR 0xA9])) None
      [(''/CAF'' @ [CHR 0xC3, CHR 0x89], JObj [])] ([], 0)
     = Inr ([(''/CAF'' @ [CHR 0xC3, CHR 0x89], JObj [])], 1)"
  by (simp add: patternMatch_def tagMatch_def assigned_def example_world_def js_defs
        lower_char_def)

lemma filter_counts_proto:
  "filterPaths w None None [(''__proto__'', JObj [])] ([], 0) = Inr ([], 1)"
  by (simp add: patternMatch_def tagMatch_def assigned_def)

section \<open>The zero-match branch\<close>





section \<open>Arguments the handler never reads\<close>

text \<open>
  Claim C1.  The claim has \<open>max_depth\<close> bound the depth of the returned JSON.  The
  handler destructures the parsed arguments without \<open>max_depth\<close> and calls
  \<^verbatim>\<open>sanitizeRecursive(result, 0, 30)\<close>.  With \<open>max_depth = 1\<close> (accepted by the schema)
  the payload is not cut at all: two levels below its root stand the URL, the count, the
  filters and the path items, not truncation markers.
\<close>

theorem read_api_ignores_max_depth:
  "parse_args (example_world two_paths_store) (plain_args\<lparr>raw_max_depth := Some 1\<rparr>)
     = Inr (plain_parsed\<lparr>arg_max_depth := 1\<rparr>)
   \<and> fst (read_swagger_api_try (example_world two_paths_store)
             (plain_args\<lparr>raw_max_depth := Some 1\<rparr>))
       = Inr (Payload two_paths_payload [])
   \<and> nodes_at 2 two_paths_payload
       = [JStr ''http://h/doc'', JNum 2,
          JObj [(''path_pattern'', JUndef), (''tag'', JUndef)],
          JObj [(''get'',
                    JObj [(''summary'', JStr []), (''description'', JStr []),
                          (''operationId'', JStr []), (''tags'', JArr []),
                          (''parameters'', JArr []), (''requestBody'', JUndef),
                          (''responses'', JObj [])])],
          JObj [(''get'',
                    JObj [(''summary'', JStr []), (''description'', JStr []),
                          (''operationId'', JStr []), (''tags'', JArr []),
                          (''parameters'', JArr []), (''requestBody'', JUndef),
                          (''responses'', JObj [])])]]"
proof (intro conjI)
  show "parse_args (example_world two_paths_store) (plain_args\<lparr>raw_max_depth := Some 1\<rparr>)
     = Inr (plain_parsed\<lparr>arg_max_depth := 1\<rparr>)"
    by (simp add: parse_args_def example_world_def plain_args_def plain_parsed_def)
  show "fst (read_swagger_api_try (example_world two_paths_store)
             (plain_args\<lparr>raw_max_depth := Some 1\<rparr>))
       = Inr (Payload two_paths_payload [])"
    by (simp add: js_defs handler_defs example_world_def two_paths_store_def plain_args_def
          sanitize_eval two_paths_payload_def)
  show "nodes_at 2 two_paths_payload = [JStr ''http://h/doc'', JNum 2,
          JObj [(''path_pattern'', JUndef), (''tag'', JUndef)],
          JObj [(''get'',
                    JObj [(''summary'', JStr []), (''description'', JStr []),
                          (''operationId'', JStr []), (''tags'', JArr []),
                          (''parameters'', JArr []), (''requestBody'', JUndef),
                          (''responses'', JObj [])])],
          JObj [(''get'',
                    JObj [(''summary'', JStr []), (''description'', JStr []),
                          (''operationId'', JStr []), (''tags'', JArr []),
                          (''parameters'', JArr []), (''requestBody'', JUndef),
                          (''responses'', JObj [])])]]"
    by (simp add: two_paths_payload_def numeral_2_eq_2)
qed

text \<open>
  Whatever accepted value \<open>max_depth\<close> has, the invocation returns the same.
\<close>

lemma safeResult_max_depth:
  "safeResult w (a\<lparr>arg_max_depth := k\<rparr>) api fp mc = safeResult w a api fp mc"
  by (simp add: safeResult_def build_result_def cong: sum.case_cong if_cong)

lemma run_max_depth: "read_swagger_api_run w (a\<lparr>arg_max_depth := k\<rparr>) = read_swagger_api_run w a"
  by (simp add: read_swagger_api_run_def safeResult_max_depth
        cong: sum.case_cong prod.case_cong if_cong)

lemma parse_max_depth:
  "parse_args w (raw\<lparr>raw_max_depth := Some k\<rparr>) = Inr a \<Longrightarrow> 1 \<le> k' \<Longrightarrow> k' \<le> 100 \<Longrightarrow>
   parse_args w (raw\<lparr>raw_max_depth := Some k'\<rparr>) = Inr (a\<lparr>arg_max_depth := k'\<rparr>)"
  by (auto simp add: parse_args_def Let_def split: if_splits)

lemma max_depth_never_read:
  assumes "parse_args w (raw\<lparr>raw_max_depth := Some k\<rparr>) = Inr a" and "1 \<le> k'" and "k' \<le> 100"
  shows "read_swagger_api w (raw\<lparr>raw_max_depth := Some k'\<rparr>)
       = read_swagger_api w (raw\<lparr>raw_max_depth := Some k\<rparr>)"
  using assms parse_max_depth[OF assms]
  by (simp add: read_swagger_api_def read_swagger_api_try_def run_max_depth)

text \<open>
  Claim C2.  The claim has \<open>limit_paths\<close> and \<open>limit_ops\<close> bound the number of path
  entries and operations returned.  The handler reads neither: with both set to 1 and a
  document of two paths with one operation each, the payload has both paths and both
  operations.
\<close>

theorem read_api_ignores_limits:
  "parse_args (example_world two_paths_store)
       (plain_args\<lparr>raw_limit_paths := Some 1, raw_limit_ops := Some 1\<rparr>)
     = Inr (plain_parsed\<lparr>arg_limit_paths := 1, arg_limit_ops := 1\<rparr>)
   \<and> fst (read_swagger_api_try (example_world two_paths_store)
             (plain_args\<lparr>raw_limit_paths := Some 1, raw_limit_ops := Some 1\<rparr>))
       = Inr (Payload two_paths_payload [])
   \<and> map fst (entries two_paths_store (getp two_paths_store two_paths_payload ''paths''))
       = [''/a'', ''/b'']
   \<and> map (\<lambda>item. map fst (entries two_paths_store item))
         (map snd (entries two_paths_store (getp two_paths_store two_paths_payload ''paths'')))
       = [[''get''], [''get'']]"
proof (intro conjI)
  show "parse_args (example_world two_paths_store)
       (plain_args\<lparr>raw_limit_paths := Some 1, raw_limit_ops := Some 1\<rparr>)
     = Inr (plain_parsed\<lparr>arg_limit_paths := 1, arg_limit_ops := 1\<rparr>)"
    by (simp add: parse_args_def example_world_def plain_args_def plain_parsed_def)
  show "fst (read_swagger_api_try (example_world two_paths_store)
             (plain_args\<lparr>raw_limit_paths := Some 1, raw_limit_ops := Some 1\<rparr>))
       = Inr (Payload two_paths_payload [])"
    by (simp add: js_defs handler_defs example_world_def two_paths_store_def plain_args_def
          sanitize_eval two_paths_payload_def)
  show "map fst (entries two_paths_store (getp two_paths_store two_paths_payload ''paths''))
       = [''/a'', ''/b'']"
    by (simp add: js_defs two_paths_payload_def)
  show "map (\<lambda>item. map fst (entries two_paths_store item))
         (map snd (entries two_paths_store (getp two_paths_store two_paths_payload ''paths'')))
       = [[''get''], [''get'']]"
    by (simp add: js_defs two_paths_payload_def)
qed

text \<open>
  Whatever accepted values the two limits have, the invocation returns the same.
\<close>

lemma safeResult_limits:
  "safeResult w (a\<lparr>arg_limit_paths := p, arg_limit_ops := q\<rparr>) api fp mc
     = safeResult w a api fp mc"
  by (simp add: safeResult_def build_result_def cong: sum.case_cong if_cong)

lemma run_limits:
  "read_swagger_api_run w (a\<lparr>arg_limit_paths := p, arg_limit_ops := q\<rparr>) = read_swagger_api_run w a"
  by (simp add: read_swagger_api_run_def safeResult_limits
        cong: sum.case_cong prod.case_cong if_cong)

lemma parse_limits:
  "parse_args w (raw\<lparr>raw_limit_paths := Some p, raw_limit_ops := Some q\<rparr>) = Inr a \<Longrightarrow>
   0 \<le> p' \<Longrightarrow> p' \<le> 10000 \<Longrightarrow> 0 \<le> q' \<Longrightarrow> q' \<le> 10000 \<Longrightarrow>
   parse_args w (raw\<lparr>raw_limit_paths := Some p', raw_limit_ops := Some q'\<rparr>)
     = Inr (a\<lparr>arg_limit_paths := p', arg_limit_ops := q'\<rparr>)"
  by (auto simp add: parse_args_def Let_def split: if_splits)

lemma limits_never_read:
  assumes "parse_args w (raw\<lparr>raw_limit_paths := Some p, raw_limit_ops := Some q\<rparr>) = Inr a"
    and "0 \<le> p'" and "p' \<le> 10000" and "0 \<le> q'" and "q' \<le> 10000"
  shows "read_swagger_api w (raw\<lparr>raw_limit_paths := Some p', raw_limit_ops := Some q'\<rparr>)
       = read_swagger_api w (raw\<lparr>raw_limit_paths := Some p, raw_limit_ops := Some q\<rparr>)"
  using assms parse_limits[OF assms]
  by (simp add: read_swagger_api_def read_swagger_api_try_def run_limits)


end
